theory Spec2Isabelle
  imports Complex_Main
begin

section \<open>IP geolocation lookup with provider fallback (CoordinatesFromIPs.js)\<close>

text \<open>
  The module exports three asynchronous functions: \<open>getCoordinatesFromIP\<close> (one address,
  three lookup services tried in order), \<open>getCoordinatesFromIPs\<close> (a batch, run concurrently
  under \<open>Promise.all\<close>) and \<open>createFlowsFromIPs\<close> (a sequential loop over source/destination
  pairs). The embedding follows the source line by line. What the source takes from the
  JavaScript runtime is modelled as far as the module uses it: values parsed from JSON and
  their truthiness, property reads, the regular expression of the format check, promises
  that fulfil or reject, \<open>try\<close>/\<open>catch\<close>, and the network as the only source of
  nondeterminism.
\<close>

subsection \<open>JavaScript values\<close>

text \<open>
  A number parsed from JSON is a finite double or, on overflow, an infinity; it is never
  NaN. A finite double is the rational it denotes; the two zeros are one value here, both
  are falsy.
\<close>

datatype jsnum = Finite rat | PosInfinity | NegInfinity

text \<open>
  \<open>JObj\<close> lists the members of an object in the order of the JSON text; where a key is
  repeated the last member is the property, as \<open>JSON.parse\<close> has it.
\<close>

datatype jsval =
    JUndefined
  | JNull
  | JBool bool
  | JNum jsnum
  | JStr string
  | JArr "jsval list"
  | JObj "(string \<times> jsval) list"

datatype js_error =
    FetchFailed    \<comment> \<open>\<open>fetch\<close> rejects: no connection, blocked request, \<open>fetch\<close> not defined\<close>
  | BodyNotJson    \<comment> \<open>\<open>response.json()\<close> rejects: the body cannot be read as JSON\<close>
  | TypeError      \<comment> \<open>a property read from \<open>null\<close> or \<open>undefined\<close>\<close>

text \<open>The conversion to boolean that \<open>&&\<close> and \<open>if\<close> apply.\<close>

fun truthy :: "jsval \<Rightarrow> bool" where
  "truthy JUndefined = False"
| "truthy JNull = False"
| "truthy (JBool b) = b"
| "truthy (JNum n) = (n \<noteq> Finite 0)"
| "truthy (JStr s) = (s \<noteq> [])"
| "truthy (JArr vs) = True"
| "truthy (JObj kvs) = True"

text \<open>
  The property read \<open>v.k\<close>, for the five names the module reads (\<open>status\<close>, \<open>lon\<close>,
  \<open>lat\<close>, \<open>longitude\<close>, \<open>latitude\<close>): none of them is a property of a primitive, of an
  array or of \<open>Object.prototype\<close>, so only an object's own member gives a value, and
  reading from \<open>null\<close> or \<open>undefined\<close> throws.
\<close>

fun read_prop :: "jsval \<Rightarrow> string \<Rightarrow> js_error + jsval" where
  "read_prop JUndefined k = Inl TypeError"
| "read_prop JNull k = Inl TypeError"
| "read_prop (JObj kvs) k = Inr (case map_of (rev kvs) k of None \<Rightarrow> JUndefined | Some v \<Rightarrow> v)"
| "read_prop v k = Inr JUndefined"

subsection \<open>The regular expression of the format check\<close>

text \<open>
  The constructs of \<open>/^(\d{1,3}\.){3}\d{1,3}$/\<close>: the class \<open>\d\<close> (without the \<open>u\<close> flag
  the ASCII digits), an escaped literal, concatenation, the bounded quantifier \<open>{lo,hi}\<close>
  and the two anchors (without the \<open>m\<close> flag the start and the end of the whole input).
\<close>

datatype regex =
    Digit
  | Lit char
  | Seq regex regex
  | Rep nat nat regex
  | Bol
  | Eol

text \<open>
  A JavaScript string is a sequence of 16-bit code units, a \<open>string\<close> here one of 8-bit
  characters. The expression tells the ten ASCII digits and the dot from every other code
  unit and nothing more, so the narrower alphabet loses nothing of what it decides.
\<close>

definition is_digit :: "char \<Rightarrow> bool" where
  "is_digit c = (c \<in> set ''0123456789'')"

text \<open>
  A backtracking matcher, as the engine is: a cursor is the index reached and the input
  left; \<open>step r x\<close> lists the cursors after every way of matching \<open>r\<close> at \<open>x\<close>, the
  greedy ones first.
\<close>

type_synonym cursor = "nat \<times> string"

fun rep :: "(cursor \<Rightarrow> cursor list) \<Rightarrow> nat \<Rightarrow> nat \<Rightarrow> cursor \<Rightarrow> cursor list" where
  "rep f lo 0 x = (if lo = 0 then [x] else [])"
| "rep f lo (Suc hi) x =
     concat (map (rep f (lo - 1) hi) (f x)) @ (if lo = 0 then [x] else [])"

primrec step :: "regex \<Rightarrow> cursor \<Rightarrow> cursor list" where
  "step Digit x =
     (case snd x of [] \<Rightarrow> [] | c # t \<Rightarrow> if is_digit c then [(Suc (fst x), t)] else [])"
| "step (Lit a) x =
     (case snd x of [] \<Rightarrow> [] | c # t \<Rightarrow> if c = a then [(Suc (fst x), t)] else [])"
| "step (Seq r1 r2) x = concat (map (step r2) (step r1 x))"
| "step (Rep lo hi r) x = rep (step r) lo hi x"
| "step Bol x = (if fst x = 0 then [x] else [])"
| "step Eol x = (if snd x = [] then [x] else [])"

text \<open>
  \<open>RegExp.prototype.test\<close> of a regular expression without the \<open>g\<close> and \<open>y\<close> flags: a
  match is tried at every index from 0 to the length of the input.
\<close>

definition test :: "regex \<Rightarrow> string \<Rightarrow> bool" where
  "test r s = list_ex (\<lambda>i. step r (i, drop i s) \<noteq> []) [0 ..< Suc (length s)]"

definition ipRegex :: regex where
  "ipRegex =
     Seq Bol
       (Seq (Rep 3 3 (Seq (Rep 1 3 Digit) (Lit (CHR ''.''))))
         (Seq (Rep 1 3 Digit) Eol))"

subsection \<open>Promises, the network and asynchronous code\<close>

text \<open>A promise that has settled; a \<open>try\<close> body or a statement that has completed.\<close>

datatype 'a settled = Fulfilled 'a | Rejected js_error

datatype 'a completion = Normal | Return 'a | Throw js_error

text \<open>
  All the module reads of a response is \<open>response.json()\<close>: the parsed body, or a
  rejection when the body cannot be read as JSON (\<open>None\<close>). The status code of the
  response is never looked at.
\<close>

datatype response = Response "jsval option"

fun json :: "response \<Rightarrow> jsval settled" where
  "json (Response None) = Rejected BodyNotJson"
| "json (Response (Some v)) = Fulfilled v"

datatype level = Log | Warn | Error

text \<open>
  Asynchronous code is a tree of its interactions: it returns, or it calls \<open>fetch\<close> and
  goes on with the settled promise when that is awaited, or it writes to the console.
  \<open>Enter\<close> marks the entry into \<open>getCoordinatesFromIP\<close>; it has no effect of its own
  and is only recorded, so that invocations can be counted.
\<close>

datatype 'a itree =
    Ret 'a
  | Fetch string "response settled \<Rightarrow> 'a itree"
  | Console level "'a itree"
  | Enter string "'a itree"

primrec bind :: "'a itree \<Rightarrow> ('a \<Rightarrow> 'b itree) \<Rightarrow> 'b itree" where
  "bind (Ret v) f = f v"
| "bind (Fetch url k) f = Fetch url (\<lambda>answer. bind (k answer) f)"
| "bind (Console l t) f = Console l (bind t f)"
| "bind (Enter a t) f = Enter a (bind t f)"

text \<open>
  The world a sequential run sees: the requests made so far, the console output, the
  invocations, and what the network answers. The answer may depend on the URL and on how
  many requests came before, so the same URL may be answered differently later (the
  services limit the request rate). Every request is taken to settle.
\<close>

record world =
  requests :: "string list"
  console :: "level list"
  invocations :: "string list"
  answers :: "nat \<Rightarrow> string \<Rightarrow> response settled"

definition fetch :: "string \<Rightarrow> world \<Rightarrow> response settled \<times> world" where
  "fetch url w = (answers w (length (requests w)) url, w\<lparr>requests := requests w @ [url]\<rparr>)"

primrec run :: "'a itree \<Rightarrow> world \<Rightarrow> 'a \<times> world" where
  "run (Ret v) w = (v, w)"
| "run (Fetch url k) w = (case fetch url w of (answer, w') \<Rightarrow> run (k answer) w')"
| "run (Console l t) w = run t (w\<lparr>console := console w @ [l]\<rparr>)"
| "run (Enter a t) w = run t (w\<lparr>invocations := invocations w @ [a]\<rparr>)"

subsection \<open>getCoordinatesFromIP\<close>

definition url1 :: "string \<Rightarrow> string" where
  "url1 ipAddress = ''http://ip-api.com/json/'' @ ipAddress @ ''?fields=status,message,lon,lat''"

definition url2 :: "string \<Rightarrow> string" where
  "url2 ipAddress = ''https://ipapi.co/'' @ ipAddress @ ''/json/''"

definition url3 :: "string \<Rightarrow> string" where
  "url3 ipAddress = ''https://ip-api.io/json/'' @ ipAddress"

text \<open>
  Lines 25 to 28: \<open>if (data1.status === 'success' && data1.lon && data1.lat) return
  [data1.lon, data1.lat]\<close>, with the reads in the order \<open>&&\<close> makes them.
\<close>

definition check1 :: "jsval \<Rightarrow> jsval completion" where
  "check1 data1 =
     (case read_prop data1 ''status'' of Inl e \<Rightarrow> Throw e | Inr status \<Rightarrow>
        if status \<noteq> JStr ''success'' then Normal else
     (case read_prop data1 ''lon'' of Inl e \<Rightarrow> Throw e | Inr lon \<Rightarrow>
        if \<not> truthy lon then Normal else
     (case read_prop data1 ''lat'' of Inl e \<Rightarrow> Throw e | Inr lat \<Rightarrow>
        if \<not> truthy lat then Normal else Return (JArr [lon, lat]))))"

text \<open>Lines 37 to 40 and 49 to 52: \<open>if (data.longitude && data.latitude) return [...]\<close>.\<close>

definition check2 :: "jsval \<Rightarrow> jsval completion" where
  "check2 data2 =
     (case read_prop data2 ''longitude'' of Inl e \<Rightarrow> Throw e | Inr longitude \<Rightarrow>
        if \<not> truthy longitude then Normal else
     (case read_prop data2 ''latitude'' of Inl e \<Rightarrow> Throw e | Inr latitude \<Rightarrow>
        if \<not> truthy latitude then Normal else Return (JArr [longitude, latitude])))"

text \<open>
  What a \<open>try\<close> body does with the settled \<open>fetch\<close>: awaiting a rejected promise throws,
  so does a body that is not JSON, then the check above.
\<close>

definition body1 :: "response settled \<Rightarrow> jsval completion" where
  "body1 answer =
     (case answer of Rejected e \<Rightarrow> Throw e | Fulfilled response1 \<Rightarrow>
     (case json response1 of Rejected e \<Rightarrow> Throw e | Fulfilled data1 \<Rightarrow> check1 data1))"

definition body2 :: "response settled \<Rightarrow> jsval completion" where
  "body2 answer =
     (case answer of Rejected e \<Rightarrow> Throw e | Fulfilled response2 \<Rightarrow>
     (case json response2 of Rejected e \<Rightarrow> Throw e | Fulfilled data2 \<Rightarrow> check2 data2))"

text \<open>The three \<open>try\<close> bodies (lines 21 to 28, 35 to 40, 47 to 52); a success is logged.\<close>

definition attempt1 :: "string \<Rightarrow> jsval completion itree" where
  "attempt1 ipAddress =
     Fetch (url1 ipAddress) (\<lambda>answer.
       case body1 answer of Return v \<Rightarrow> Console Log (Ret (Return v)) | c \<Rightarrow> Ret c)"

definition attempt2 :: "string \<Rightarrow> jsval completion itree" where
  "attempt2 ipAddress =
     Fetch (url2 ipAddress) (\<lambda>answer.
       case body2 answer of Return v \<Rightarrow> Console Log (Ret (Return v)) | c \<Rightarrow> Ret c)"

definition attempt3 :: "string \<Rightarrow> jsval completion itree" where
  "attempt3 ipAddress =
     Fetch (url3 ipAddress) (\<lambda>answer.
       case body2 answer of Return v \<Rightarrow> Console Log (Ret (Return v)) | c \<Rightarrow> Ret c)"

text \<open>\<open>try { body } catch (error) { console.warn(...) }\<close>: a throw ends in the handler.\<close>

definition try_catch :: "'a completion itree \<Rightarrow> 'a completion itree" where
  "try_catch body =
     bind body (\<lambda>c. case c of Throw e \<Rightarrow> Console Warn (Ret Normal) | _ \<Rightarrow> Ret c)"

text \<open>
  The function body. A \<open>return\<close> fulfils the promise of the async function, a throw that
  nothing catches would reject it.
\<close>

definition getCoordinatesFromIP :: "string \<Rightarrow> jsval settled itree" where
  "getCoordinatesFromIP ipAddress =
     Enter ipAddress
      (if \<not> test ipRegex ipAddress then Console Error (Ret (Fulfilled JNull))
       else
         bind (try_catch (attempt1 ipAddress)) (\<lambda>c1.
           case c1 of Return v \<Rightarrow> Ret (Fulfilled v) | Throw e \<Rightarrow> Ret (Rejected e) | Normal \<Rightarrow>
         bind (try_catch (attempt2 ipAddress)) (\<lambda>c2.
           case c2 of Return v \<Rightarrow> Ret (Fulfilled v) | Throw e \<Rightarrow> Ret (Rejected e) | Normal \<Rightarrow>
         bind (try_catch (attempt3 ipAddress)) (\<lambda>c3.
           case c3 of Return v \<Rightarrow> Ret (Fulfilled v) | Throw e \<Rightarrow> Ret (Rejected e) | Normal \<Rightarrow>
         Console Error (Ret (Fulfilled JNull))))))"

text \<open>
  \<open>await p\<close> outside any \<open>try\<close>, where \<open>p\<close> is the promise of an async call: the
  function goes on with the value, and a rejection rejects the awaiting function too.
\<close>

definition await :: "'a settled itree \<Rightarrow> ('a \<Rightarrow> 'b settled itree) \<Rightarrow> 'b settled itree" where
  "await p k = bind p (\<lambda>s. case s of Rejected e \<Rightarrow> Ret (Rejected e) | Fulfilled v \<Rightarrow> k v)"

subsection \<open>getCoordinatesFromIPs\<close>

record entry =
  ip :: string
  coords :: jsval

text \<open>The arrow function \<open>async (ip) => ({ ip, coords: await getCoordinatesFromIP(ip) })\<close>.\<close>

definition lookup_task :: "string \<Rightarrow> entry settled itree" where
  "lookup_task ipAddress =
     await (getCoordinatesFromIP ipAddress) (\<lambda>c. Ret (Fulfilled \<lparr>ip = ipAddress, coords = c\<rparr>))"

text \<open>
  The tasks that \<open>map\<close> starts run concurrently: each stands at a \<open>fetch\<close> it awaits, or
  has returned. The program does not fix the order in which the answers arrive, so the
  run is driven by a list of events, each the answer to the request that one task awaits.
  \<open>deliver\<close> resumes a task with an answer, \<open>result\<close> is what a task has returned, if it
  has. Console output does not suspend a task.
\<close>

primrec deliver :: "response settled \<Rightarrow> 'a itree \<Rightarrow> 'a itree" where
  "deliver answer (Ret v) = Ret v"
| "deliver answer (Fetch url k) = k answer"
| "deliver answer (Console l t) = deliver answer t"
| "deliver answer (Enter a t) = deliver answer t"

primrec result :: "'a itree \<Rightarrow> 'a option" where
  "result (Ret v) = Some v"
| "result (Fetch url k) = None"
| "result (Console l t) = result t"
| "result (Enter a t) = result t"

definition feed :: "'a itree \<Rightarrow> response settled list \<Rightarrow> 'a itree" where
  "feed t as = foldl (\<lambda>t' answer. deliver answer t') t as"

definition on_event :: "'a itree list \<Rightarrow> nat \<times> response settled \<Rightarrow> 'a itree list" where
  "on_event pool ev =
     (case ev of (i, answer) \<Rightarrow>
        if i < length pool then pool[i := deliver answer (pool ! i)] else pool)"

text \<open>
  \<open>Promise.all\<close> over the promises of the tasks: rejected once one of them is rejected,
  fulfilled with the values in the order of the promises once all are fulfilled, pending
  (\<open>None\<close>) otherwise. Of several rejections the first in list order is taken.
\<close>

primrec promise_all :: "'a settled option list \<Rightarrow> 'a list settled option" where
  "promise_all [] = Some (Fulfilled [])"
| "promise_all (p # ps) =
     (case p of
        Some (Rejected e) \<Rightarrow> Some (Rejected e)
      | None \<Rightarrow> (case promise_all ps of Some (Rejected e) \<Rightarrow> Some (Rejected e) | _ \<Rightarrow> None)
      | Some (Fulfilled v) \<Rightarrow>
          (case promise_all ps of Some (Fulfilled vs) \<Rightarrow> Some (Fulfilled (v # vs)) | other \<Rightarrow> other))"

text \<open>
  The function awaits \<open>Promise.all\<close> and returns its value, so it settles as that promise
  does; \<open>None\<close> while it is pending after the events given.
\<close>

definition getCoordinatesFromIPs ::
  "string list \<Rightarrow> (nat \<times> response settled) list \<Rightarrow> entry list settled option" where
  "getCoordinatesFromIPs ipAddresses events =
     promise_all (map result (foldl on_event (map lookup_task ipAddresses) events))"

text \<open>The answers that the events bring to task \<open>i\<close>, in their order.\<close>

definition answers_to :: "nat \<Rightarrow> (nat \<times> response settled) list \<Rightarrow> response settled list" where
  "answers_to i events = map snd (filter (\<lambda>ev. fst ev = i) events)"

subsection \<open>createFlowsFromIPs\<close>

record ip_pair =
  srcIP :: string
  dstIP :: string

record flow =
  src :: jsval
  dst :: jsval

text \<open>The \<open>for ... of\<close> loop, with the array \<open>flows\<close> built so far.\<close>

primrec for_pairs :: "ip_pair list \<Rightarrow> flow list \<Rightarrow> flow list settled itree" where
  "for_pairs [] flows = Ret (Fulfilled flows)"
| "for_pairs (pair # rest) flows =
     await (getCoordinatesFromIP (srcIP pair)) (\<lambda>srcCoords.
     await (getCoordinatesFromIP (dstIP pair)) (\<lambda>dstCoords.
       for_pairs rest
         (if truthy srcCoords \<and> truthy dstCoords
          then flows @ [\<lparr>src = srcCoords, dst = dstCoords\<rparr>] else flows)))"

definition createFlowsFromIPs :: "ip_pair list \<Rightarrow> flow list settled itree" where
  "createFlowsFromIPs ipPairs = for_pairs ipPairs []"

text \<open>
  The loop on an array that is not of the declared type: an element may be \<open>null\<close>
  (\<open>None\<close>). Reading \<open>pair.srcIP\<close> (line 84) from it throws, outside any \<open>try\<close>, so
  the promise of the function is rejected there.
\<close>

primrec for_pairs_nullable :: "ip_pair option list \<Rightarrow> flow list \<Rightarrow> flow list settled itree" where
  "for_pairs_nullable [] flows = Ret (Fulfilled flows)"
| "for_pairs_nullable (element # rest) flows =
     (case element of
        None \<Rightarrow> Ret (Rejected TypeError)
      | Some pair \<Rightarrow>
          await (getCoordinatesFromIP (srcIP pair)) (\<lambda>srcCoords.
          await (getCoordinatesFromIP (dstIP pair)) (\<lambda>dstCoords.
            for_pairs_nullable rest
              (if truthy srcCoords \<and> truthy dstCoords
               then flows @ [\<lparr>src = srcCoords, dst = dstCoords\<rparr>] else flows))))"

definition createFlowsFromIPs_nullable :: "ip_pair option list \<Rightarrow> flow list settled itree" where
  "createFlowsFromIPs_nullable ipPairs = for_pairs_nullable ipPairs []"

text \<open>
  The results of the two lookups of each pair, in the order the loop makes them; the
  second component is the world after the last lookup.
\<close>

primrec endpoint_results :: "ip_pair list \<Rightarrow> world \<Rightarrow> (jsval settled \<times> jsval settled) list" where
  "endpoint_results [] w = []"
| "endpoint_results (pair # rest) w =
     (case run (getCoordinatesFromIP (srcIP pair)) w of (s, w1) \<Rightarrow>
      case run (getCoordinatesFromIP (dstIP pair)) w1 of (d, w2) \<Rightarrow>
        (s, d) # endpoint_results rest w2)"

text \<open>
  A flow is pushed when both results are truthy: the pair of two results that are
  coordinate pairs, nothing otherwise.
\<close>

fun flow_of :: "jsval settled \<times> jsval settled \<Rightarrow> flow option" where
  "flow_of (Fulfilled (JArr [slon, slat]), Fulfilled (JArr [dlon, dlat])) =
     Some \<lparr>src = JArr [slon, slat], dst = JArr [dlon, dlat]\<rparr>"
| "flow_of other = None"

subsection \<open>Notions of the specification\<close>

text \<open>
  Dotted-quad syntax in the words of the specification: four groups of one to three
  decimal digits, separated by dots.
\<close>

definition digit_group :: "string \<Rightarrow> bool" where
  "digit_group g = (1 \<le> length g \<and> length g \<le> 3 \<and> list_all is_digit g)"

definition dotted_quad :: "string \<Rightarrow> bool" where
  "dotted_quad s =
     (\<exists>g1 g2 g3 g4. s = g1 @ ''.'' @ g2 @ ''.'' @ g3 @ ''.'' @ g4 \<and>
        digit_group g1 \<and> digit_group g2 \<and> digit_group g3 \<and> digit_group g4)"

text \<open>
  What the providers answer to one lookup in world \<open>w\<close>, asked in the fixed order: the
  answer to the first request, to the second after the first, to the third after both.
\<close>

definition answer1 :: "string \<Rightarrow> world \<Rightarrow> response settled" where
  "answer1 a w = fst (fetch (url1 a) w)"

definition answer2 :: "string \<Rightarrow> world \<Rightarrow> response settled" where
  "answer2 a w = fst (fetch (url2 a) (snd (fetch (url1 a) w)))"

definition answer3 :: "string \<Rightarrow> world \<Rightarrow> response settled" where
  "answer3 a w = fst (fetch (url3 a) (snd (fetch (url2 a) (snd (fetch (url1 a) w)))))"

text \<open>
  A usable answer in the words of the specification: provider 1 reports a success status
  and both \<open>lon\<close> and \<open>lat\<close> are present and not falsy; providers 2 and 3 need
  \<open>longitude\<close> and \<open>latitude\<close> present and not falsy. A request that fails, a body that
  is not JSON and data without these fields are not usable.
\<close>

definition present_truthy :: "jsval \<Rightarrow> string \<Rightarrow> bool" where
  "present_truthy data k = (case read_prop data k of Inl e \<Rightarrow> False | Inr v \<Rightarrow> truthy v)"

definition usable1 :: "response settled \<Rightarrow> bool" where
  "usable1 answer =
     (case answer of
        Fulfilled (Response (Some data)) \<Rightarrow>
          read_prop data ''status'' = Inr (JStr ''success'') \<and>
          present_truthy data ''lon'' \<and> present_truthy data ''lat''
      | _ \<Rightarrow> False)"

definition usable2 :: "response settled \<Rightarrow> bool" where
  "usable2 answer =
     (case answer of
        Fulfilled (Response (Some data)) \<Rightarrow>
          present_truthy data ''longitude'' \<and> present_truthy data ''latitude''
      | _ \<Rightarrow> False)"

text \<open>
  A coordinate pair in the words of the specification: an ordered pair of numbers. And
  what a lookup can take from an answer: the array of the two values that the answer
  carries under the two names, when both are there and neither is falsy.
\<close>

fun coordinate_pair :: "jsval \<Rightarrow> bool" where
  "coordinate_pair (JArr [JNum lon, JNum lat]) = True"
| "coordinate_pair v = False"

definition carried :: "response settled \<Rightarrow> string \<Rightarrow> string \<Rightarrow> jsval \<Rightarrow> bool" where
  "carried answer klon klat v =
     (case answer of
        Fulfilled (Response (Some data)) \<Rightarrow>
          (case read_prop data klon of
             Inl e \<Rightarrow> False
           | Inr lon \<Rightarrow>
               (case read_prop data klat of
                  Inl e \<Rightarrow> False
                | Inr lat \<Rightarrow> truthy lon \<and> truthy lat \<and> v = JArr [lon, lat]))
      | _ \<Rightarrow> False)"

text \<open>The answers that a sequential run of a tree receives in world \<open>w\<close>.\<close>

primrec replies :: "'a itree \<Rightarrow> world \<Rightarrow> response settled list" where
  "replies (Ret v) w = []"
| "replies (Fetch url k) w = (case fetch url w of (answer, w') \<Rightarrow> answer # replies (k answer) w')"
| "replies (Console l t) w = replies t (w\<lparr>console := console w @ [l]\<rparr>)"
| "replies (Enter a t) w = replies t (w\<lparr>invocations := invocations w @ [a]\<rparr>)"

subsection \<open>Example worlds\<close>

text \<open>
  A fresh world whose network gives the listed answers to the requests in the order they
  are made, and refuses every later request.
\<close>

definition scripted :: "response settled list \<Rightarrow> world" where
  "scripted script =
     \<lparr>requests = [], console = [], invocations = [],
      answers = (\<lambda>n url. if n < length script then script ! n else Rejected FetchFailed)\<rparr>"

definition mountain_view :: jsval where
  "mountain_view = JArr [JNum (Finite (-122.0838)), JNum (Finite 37.4)]"

definition ok1 :: response where
  "ok1 = Response (Some (JObj
     [(''status'', JStr ''success''),
      (''lon'', JNum (Finite (-122.0838))), (''lat'', JNum (Finite 37.4))]))"

definition ok2 :: response where
  "ok2 = Response (Some (JObj
     [(''ip'', JStr ''8.8.8.8''),
      (''latitude'', JNum (Finite 37.4)), (''longitude'', JNum (Finite (-122.0838)))]))"

definition zero1 :: response where
  "zero1 = Response (Some (JObj
     [(''status'', JStr ''success''), (''lon'', JNum (Finite 0)), (''lat'', JNum (Finite 51.5))]))"

definition zero2 :: response where
  "zero2 = Response (Some (JObj
     [(''longitude'', JNum (Finite 9.5)), (''latitude'', JNum (Finite 0))]))"

definition zero3 :: response where
  "zero3 = Response (Some (JObj
     [(''longitude'', JNum (Finite 0)), (''latitude'', JNum (Finite 0))]))"

definition rate_limited :: response where
  "rate_limited = Response (Some (JObj [(''error'', JBool True), (''reason'', JStr ''RateLimited'')]))"

definition strings2 :: response where
  "strings2 = Response (Some (JObj
     [(''longitude'', JStr ''12.5''), (''latitude'', JStr ''3'')]))"

text \<open>
  Two lookups under way at once, their answers arriving interleaved: the first is
  refused by provider 1, gets no JSON from provider 2 and an error object from provider
  3; the second is refused twice and gets coordinates from provider 3.
\<close>

definition interleaved :: "(nat \<times> response settled) list" where
  "interleaved =
     [(1, Rejected FetchFailed), (0, Rejected FetchFailed), (0, Fulfilled (Response None)),
      (1, Rejected FetchFailed), (0, Fulfilled rate_limited), (1, Fulfilled ok2)]"

text \<open>The pairs of the specification's example: the second has a malformed source.\<close>

definition example_pairs :: "ip_pair list" where
  "example_pairs =
     [\<lparr>srcIP = ''8.8.8.8'', dstIP = ''1.1.1.1''\<rparr>, \<lparr>srcIP = ''bad'', dstIP = ''8.8.8.8''\<rparr>]"

section \<open>Properties\<close>

subsection \<open>The format check\<close>

lemma step_SeqI:
  "y \<in> set (step r1 x) \<Longrightarrow> z \<in> set (step r2 y) \<Longrightarrow> z \<in> set (step (Seq r1 r2) x)"
  by auto

lemma rep_3_3_I:
  "y1 \<in> set (f x) \<Longrightarrow> y2 \<in> set (f y1) \<Longrightarrow> y3 \<in> set (f y2) \<Longrightarrow> y3 \<in> set (rep f 3 3 x)"
  by (auto simp: eval_nat_numeral)

lemma rep_3_3_D:
  assumes "y3 \<in> set (rep f 3 3 x)"
  shows "\<exists>y1 y2. y1 \<in> set (f x) \<and> y2 \<in> set (f y1) \<and> y3 \<in> set (f y2)"
  using assms by (auto simp: eval_nat_numeral)

lemma step_digits:
  assumes "digit_group g"
  shows "(i + length g, t) \<in> set (step (Rep 1 3 Digit) (i, g @ t))"
proof -
  from assms consider a where "g = [a]" | a b where "g = [a, b]" | a b c where "g = [a, b, c]"
    unfolding digit_group_def
    by (cases g rule: list.exhaust; simp; rename_tac g1, case_tac g1; simp;
        rename_tac g2, case_tac g2; simp)
  then show ?thesis
    using assms by cases (auto simp: digit_group_def eval_nat_numeral)
qed

lemma step_digits_D:
  assumes "(j, t) \<in> set (step (Rep 1 3 Digit) (i, s))"
  shows "\<exists>g. s = g @ t \<and> j = i + length g \<and> digit_group g"
proof -
  from assms have
    "(\<exists>a. s = [a] @ t \<and> j = i + 1 \<and> is_digit a) \<or>
     (\<exists>a b. s = [a, b] @ t \<and> j = i + 2 \<and> is_digit a \<and> is_digit b) \<or>
     (\<exists>a b c. s = [a, b, c] @ t \<and> j = i + 3 \<and> is_digit a \<and> is_digit b \<and> is_digit c)"
    by (auto simp: eval_nat_numeral split: list.splits if_splits)
  then show ?thesis
  proof (elim disjE exE conjE)
    fix a assume "s = [a] @ t" "j = i + 1" "is_digit a"
    then show ?thesis by (intro exI [of _ "[a]"]) (simp add: digit_group_def)
  next
    fix a b assume "s = [a, b] @ t" "j = i + 2" "is_digit a" "is_digit b"
    then show ?thesis by (intro exI [of _ "[a, b]"]) (simp add: digit_group_def)
  next
    fix a b c assume "s = [a, b, c] @ t" "j = i + 3" "is_digit a" "is_digit b" "is_digit c"
    then show ?thesis by (intro exI [of _ "[a, b, c]"]) (simp add: digit_group_def)
  qed
qed

lemma step_group_dot:
  assumes "digit_group g"
  shows "(Suc (i + length g), t)
    \<in> set (step (Seq (Rep 1 3 Digit) (Lit (CHR ''.''))) (i, g @ ''.'' @ t))"
  by (rule step_SeqI [OF step_digits [OF assms]]) simp

lemma step_group_dot_D:
  assumes "(j, t) \<in> set (step (Seq (Rep 1 3 Digit) (Lit (CHR ''.''))) (i, s))"
  shows "\<exists>g. s = g @ ''.'' @ t \<and> j = Suc (i + length g) \<and> digit_group g"
proof -
  from assms obtain k u where ku: "(k, u) \<in> set (step (Rep 1 3 Digit) (i, s))"
    and jt: "(j, t) \<in> set (step (Lit (CHR ''.'')) (k, u))"
    by auto
  from jt have u: "u = ''.'' @ t" and j: "j = Suc k"
    by (auto split: list.splits if_splits)
  from step_digits_D [OF ku] u j show ?thesis by auto
qed

lemma test_dotted_quad:
  assumes "digit_group g1" "digit_group g2" "digit_group g3" "digit_group g4"
  shows "test ipRegex (g1 @ ''.'' @ g2 @ ''.'' @ g3 @ ''.'' @ g4)"
proof -
  let ?s = "g1 @ ''.'' @ g2 @ ''.'' @ g3 @ ''.'' @ g4"
  let ?n3 = "Suc (Suc (Suc (length g1) + length g2) + length g3)"
  have three: "(?n3, g4) \<in> set (step (Rep 3 3 (Seq (Rep 1 3 Digit) (Lit (CHR ''.'')))) (0, ?s))"
    unfolding step.simps(4)
    using step_group_dot [OF assms(1), of 0 "g2 @ ''.'' @ g3 @ ''.'' @ g4"]
      step_group_dot [OF assms(2), of "Suc (length g1)" "g3 @ ''.'' @ g4"]
      step_group_dot [OF assms(3), of "Suc (Suc (length g1) + length g2)" "g4"]
    by (intro rep_3_3_I) simp_all
  have "(?n3 + length g4, []) \<in> set (step (Rep 1 3 Digit) (?n3, g4))"
    using step_digits [OF assms(4), of ?n3 "[]"] by simp
  then have last: "(?n3 + length g4, []) \<in> set (step (Seq (Rep 1 3 Digit) Eol) (?n3, g4))"
    by (rule step_SeqI) simp
  have "(?n3 + length g4, []) \<in> set (step ipRegex (0, ?s))"
    unfolding ipRegex_def
    by (rule step_SeqI [of "(0, ?s)"], simp, rule step_SeqI [OF three last])
  then have "step ipRegex (0, drop 0 ?s) \<noteq> []" by auto
  then show ?thesis
    unfolding test_def list_ex_iff by (intro bexI [of _ 0]) simp_all
qed

lemma step_ipRegex_D:
  assumes "y \<in> set (step ipRegex (i, s))"
  shows "i = 0 \<and> dotted_quad s"
proof -
  let ?grp = "Seq (Rep 1 3 Digit) (Lit (CHR ''.''))"
  from assms have i: "i = 0"
    by (auto simp: ipRegex_def split: if_splits)
  from assms obtain y3 z where y3: "y3 \<in> set (rep (step ?grp) 3 3 (i, s))"
    and z: "z \<in> set (step (Rep 1 3 Digit) y3)" and e: "y \<in> set (step Eol z)"
    by (auto simp: ipRegex_def split: if_splits)
  from rep_3_3_D [OF y3] obtain y1 y2 where
    "y1 \<in> set (step ?grp (i, s))" "y2 \<in> set (step ?grp y1)" "y3 \<in> set (step ?grp y2)"
    by blast
  moreover obtain j1 t1 j2 t2 j3 t3 where "y1 = (j1, t1)" "y2 = (j2, t2)" "y3 = (j3, t3)"
    by (cases y1, cases y2, cases y3) blast
  ultimately obtain g1 g2 g3 where
    g: "s = g1 @ ''.'' @ t1" "t1 = g2 @ ''.'' @ t2" "t2 = g3 @ ''.'' @ t3"
      "digit_group g1" "digit_group g2" "digit_group g3" and y3': "y3 = (j3, t3)"
    using step_group_dot_D by metis
  from e have "snd z = []" by (auto split: if_splits)
  then obtain j4 where "z = (j4, [])" by (cases z) simp
  with z y3' have "(j4, []) \<in> set (step (Rep 1 3 Digit) (j3, t3))"
    by (simp only:)
  from step_digits_D [OF this] have "digit_group t3" by auto
  with g i show ?thesis unfolding dotted_quad_def by auto
qed

text \<open>The expression accepts exactly the strings in dotted-quad syntax.\<close>

lemma test_ipRegex_iff: "test ipRegex s \<longleftrightarrow> dotted_quad s"
proof
  assume "test ipRegex s"
  then obtain i where "step ipRegex (i, drop i s) \<noteq> []"
    unfolding test_def list_ex_iff by blast
  then obtain y where "y \<in> set (step ipRegex (i, drop i s))"
    by (cases "step ipRegex (i, drop i s)") auto
  from step_ipRegex_D [OF this] have "i = 0" and "dotted_quad (drop i s)"
    by blast+
  then show "dotted_quad s" by simp
next
  assume "dotted_quad s"
  then show "test ipRegex s"
    unfolding dotted_quad_def using test_dotted_quad by blast
qed

subsection \<open>Sequential runs\<close>

lemma run_bind: "run (bind t f) w = (case run t w of (v, w') \<Rightarrow> run (f v) w')"
  by (induction t arbitrary: w) (simp_all split: prod.splits)

lemma run_await:
  "run (await p k) w =
     (case run p w of (Rejected e, w') \<Rightarrow> (Rejected e, w') | (Fulfilled v, w') \<Rightarrow> run (k v) w')"
  by (simp add: await_def run_bind split: prod.splits settled.splits)

lemma answer1_eq: "answer1 a w = answers w (length (requests w)) (url1 a)"
  by (simp add: answer1_def fetch_def)

lemma answer2_eq: "answer2 a w = answers w (Suc (length (requests w))) (url2 a)"
  by (simp add: answer2_def fetch_def)

lemma answer3_eq: "answer3 a w = answers w (Suc (Suc (length (requests w)))) (url3 a)"
  by (simp add: answer3_def fetch_def)

text \<open>A \<open>try\<close> statement of the function: it returns a pair or completes, and never throws.\<close>

lemma run_try1:
  "run (try_catch (attempt1 a)) w =
     (case body1 (answers w (length (requests w)) (url1 a)) of
        Return v \<Rightarrow>
          (Return v, w\<lparr>requests := requests w @ [url1 a], console := console w @ [Log]\<rparr>)
      | Normal \<Rightarrow> (Normal, w\<lparr>requests := requests w @ [url1 a]\<rparr>)
      | Throw e \<Rightarrow>
          (Normal, w\<lparr>requests := requests w @ [url1 a], console := console w @ [Warn]\<rparr>))"
  by (simp add: try_catch_def attempt1_def run_bind fetch_def split: completion.splits)

lemma run_try2:
  "run (try_catch (attempt2 a)) w =
     (case body2 (answers w (length (requests w)) (url2 a)) of
        Return v \<Rightarrow>
          (Return v, w\<lparr>requests := requests w @ [url2 a], console := console w @ [Log]\<rparr>)
      | Normal \<Rightarrow> (Normal, w\<lparr>requests := requests w @ [url2 a]\<rparr>)
      | Throw e \<Rightarrow>
          (Normal, w\<lparr>requests := requests w @ [url2 a], console := console w @ [Warn]\<rparr>))"
  by (simp add: try_catch_def attempt2_def run_bind fetch_def split: completion.splits)

lemma run_try3:
  "run (try_catch (attempt3 a)) w =
     (case body2 (answers w (length (requests w)) (url3 a)) of
        Return v \<Rightarrow>
          (Return v, w\<lparr>requests := requests w @ [url3 a], console := console w @ [Log]\<rparr>)
      | Normal \<Rightarrow> (Normal, w\<lparr>requests := requests w @ [url3 a]\<rparr>)
      | Throw e \<Rightarrow>
          (Normal, w\<lparr>requests := requests w @ [url3 a], console := console w @ [Warn]\<rparr>))"
  by (simp add: try_catch_def attempt3_def run_bind fetch_def split: completion.splits)

lemma run_invalid:
  "\<not> test ipRegex a \<Longrightarrow>
   run (getCoordinatesFromIP a) w =
     (Fulfilled JNull, w\<lparr>console := console w @ [Error], invocations := invocations w @ [a]\<rparr>)"
  by (simp add: getCoordinatesFromIP_def)

text \<open>The result and the requests of a lookup that passes the format check.\<close>

lemma run_valid_fst:
  "test ipRegex a \<Longrightarrow>
   fst (run (getCoordinatesFromIP a) w) =
     (case body1 (answer1 a w) of Return v \<Rightarrow> Fulfilled v | _ \<Rightarrow>
     (case body2 (answer2 a w) of Return v \<Rightarrow> Fulfilled v | _ \<Rightarrow>
     (case body2 (answer3 a w) of Return v \<Rightarrow> Fulfilled v | _ \<Rightarrow> Fulfilled JNull)))"
  by (simp add: getCoordinatesFromIP_def run_bind run_try1 run_try2 run_try3
      answer1_eq answer2_eq answer3_eq split: completion.splits)

lemma run_valid_requests:
  "test ipRegex a \<Longrightarrow>
   requests (snd (run (getCoordinatesFromIP a) w)) =
     (case body1 (answer1 a w) of Return v \<Rightarrow> requests w @ [url1 a] | _ \<Rightarrow>
     (case body2 (answer2 a w) of Return v \<Rightarrow> requests w @ [url1 a, url2 a] | _ \<Rightarrow>
        requests w @ [url1 a, url2 a, url3 a]))"
  by (simp add: getCoordinatesFromIP_def run_bind run_try1 run_try2 run_try3
      answer1_eq answer2_eq answer3_eq split: completion.splits)

lemma run_invocations:
  "invocations (snd (run (getCoordinatesFromIP a) w)) = invocations w @ [a]"
  by (simp add: getCoordinatesFromIP_def run_bind run_try1 run_try2 run_try3
      split: completion.splits)

text \<open>A \<open>try\<close> body returns exactly on a usable answer, and what it returns is a pair.\<close>

lemma body1_usable: "(\<exists>v. body1 x = Return v) \<longleftrightarrow> usable1 x"
  by (auto simp: body1_def check1_def usable1_def present_truthy_def
      split: settled.splits sum.splits if_splits response.splits option.splits)

lemma body2_usable: "(\<exists>v. body2 x = Return v) \<longleftrightarrow> usable2 x"
  by (auto simp: body2_def check2_def usable2_def present_truthy_def
      split: settled.splits sum.splits if_splits response.splits option.splits)

lemma body1_shape: "body1 x = Return v \<Longrightarrow> \<exists>lon lat. v = JArr [lon, lat]"
  by (auto simp: body1_def check1_def split: settled.splits sum.splits if_splits)

lemma body2_shape: "body2 x = Return v \<Longrightarrow> \<exists>lon lat. v = JArr [lon, lat]"
  by (auto simp: body2_def check2_def split: settled.splits sum.splits if_splits)

lemma unusable1: "\<not> usable1 x \<Longrightarrow> body1 x = Normal \<or> (\<exists>e. body1 x = Throw e)"
  using body1_usable [of x] by (cases "body1 x") auto

lemma unusable2: "\<not> usable2 x \<Longrightarrow> body2 x = Normal \<or> (\<exists>e. body2 x = Throw e)"
  using body2_usable [of x] by (cases "body2 x") auto

lemma run_shape:
  "\<exists>v. fst (run (getCoordinatesFromIP a) w) = Fulfilled v \<and>
       (v = JNull \<or> (\<exists>lon lat. v = JArr [lon, lat]))"
proof (cases "test ipRegex a")
  case False
  then show ?thesis by (simp add: run_invalid)
next
  case True
  show ?thesis
    unfolding run_valid_fst [OF True]
    by (auto split: completion.splits dest: body1_shape body2_shape)
qed

lemma run_cases:
  obtains w' where "run (getCoordinatesFromIP a) w = (Fulfilled JNull, w')"
      "invocations w' = invocations w @ [a]"
  | lon lat w' where "run (getCoordinatesFromIP a) w = (Fulfilled (JArr [lon, lat]), w')"
      "invocations w' = invocations w @ [a]"
  using run_shape [of a w] run_invocations [of a w]
  by (cases "run (getCoordinatesFromIP a) w") auto

subsection \<open>The loop over the pairs\<close>

lemma run_for_pairs:
  "fst (run (for_pairs pairs flows) w) =
     Fulfilled (flows @ List.map_filter flow_of (endpoint_results pairs w))"
proof (induction pairs arbitrary: flows w)
  case Nil
  show ?case by simp
next
  case (Cons pair rest)
  show ?case
  proof (cases rule: run_cases [of "srcIP pair" w])
    case (1 w1)
    then show ?thesis
      by (cases rule: run_cases [of "dstIP pair" w1]) (simp_all add: run_await Cons.IH)
  next
    case (2 lon lat w1)
    then show ?thesis
      by (cases rule: run_cases [of "dstIP pair" w1]) (simp_all add: run_await Cons.IH)
  qed
qed

lemma invocations_for_pairs:
  "invocations (snd (run (for_pairs pairs flows) w)) =
     invocations w @ concat (map (\<lambda>pair. [srcIP pair, dstIP pair]) pairs)"
proof (induction pairs arbitrary: flows w)
  case Nil
  show ?case by simp
next
  case (Cons pair rest)
  show ?case
  proof (cases rule: run_cases [of "srcIP pair" w])
    case (1 w1)
    then show ?thesis
      by (cases rule: run_cases [of "dstIP pair" w1]) (simp_all add: run_await Cons.IH)
  next
    case (2 lon lat w1)
    then show ?thesis
      by (cases rule: run_cases [of "dstIP pair" w1]) (simp_all add: run_await Cons.IH)
  qed
qed

lemma length_endpoint_results: "length (endpoint_results pairs w) = length pairs"
  by (induction pairs arbitrary: w) (simp_all split: prod.splits)

lemma endpoint_results_shape:
  "(s, d) \<in> set (endpoint_results pairs w) \<Longrightarrow>
     (s = Fulfilled JNull \<or> (\<exists>lon lat. s = Fulfilled (JArr [lon, lat]))) \<and>
     (d = Fulfilled JNull \<or> (\<exists>lon lat. d = Fulfilled (JArr [lon, lat])))"
proof (induction pairs arbitrary: w)
  case Nil
  then show ?case by simp
next
  case (Cons pair rest)
  show ?case
  proof (cases rule: run_cases [of "srcIP pair" w])
    case (1 w1)
    then show ?thesis using Cons
      by (cases rule: run_cases [of "dstIP pair" w1]) auto
  next
    case (2 lon lat w1)
    then show ?thesis using Cons
      by (cases rule: run_cases [of "dstIP pair" w1]) auto
  qed
qed

lemma flow_of_None_iff:
  assumes "s = Fulfilled JNull \<or> (\<exists>lon lat. s = Fulfilled (JArr [lon, lat]))"
    and "d = Fulfilled JNull \<or> (\<exists>lon lat. d = Fulfilled (JArr [lon, lat]))"
  shows "flow_of (s, d) = None \<longleftrightarrow> s = Fulfilled JNull \<or> d = Fulfilled JNull"
  using assms by auto

lemma length_map_filter_le: "length (List.map_filter f xs) \<le> length xs"
  by (induction xs) (simp_all split: option.splits)

subsection \<open>Concurrent runs\<close>

lemma result_bind: "result (bind t f) = (case result t of None \<Rightarrow> None | Some v \<Rightarrow> result (f v))"
  by (induction t) simp_all

lemma deliver_bind:
  "deliver x (bind t f) =
     (case result t of None \<Rightarrow> bind (deliver x t) f | Some v \<Rightarrow> deliver x (f v))"
  by (induction t) (simp_all split: option.splits)

lemma result_deliver: "result t = Some v \<Longrightarrow> result (deliver x t) = Some v"
  by (induction t) simp_all

lemma feed_Nil [simp]: "feed t [] = t"
  by (simp add: feed_def)

lemma feed_Cons [simp]: "feed t (x # xs) = feed (deliver x t) xs"
  by (simp add: feed_def)

lemma result_feed: "result t = Some v \<Longrightarrow> result (feed t xs) = Some v"
  by (induction xs arbitrary: t) (simp_all add: result_deliver)

lemma result_feed_bind_Ret:
  "result (feed (bind t (\<lambda>v. Ret (g v))) xs) = map_option g (result (feed t xs))"
proof (induction xs arbitrary: t)
  case Nil
  show ?case by (simp add: result_bind split: option.splits)
next
  case (Cons x xs)
  show ?case
  proof (cases "result t")
    case None
    then show ?thesis using Cons.IH [of "deliver x t"] by (simp add: deliver_bind)
  next
    case (Some v)
    then show ?thesis by (simp add: deliver_bind result_feed result_deliver)
  qed
qed

text \<open>
  The two ways of running a tree agree: fed the answers that world \<open>w\<close> gives, it returns
  what the sequential run in \<open>w\<close> returns.
\<close>

lemma result_feed_skip:
  "result (feed (Console l t) xs) = result (feed t xs)"
  "result (feed (Enter a t) xs) = result (feed t xs)"
  by (cases xs; simp)+

lemma feed_replies: "result (feed t (replies t w)) = Some (fst (run t w))"
  by (induction t arbitrary: w) (simp_all add: result_feed_skip split: prod.splits)

lemma feed_invalid:
  "\<not> test ipRegex a \<Longrightarrow> result (feed (getCoordinatesFromIP a) xs) = Some (Fulfilled JNull)"
  by (rule result_feed) (simp add: getCoordinatesFromIP_def)

lemma feed_valid:
  "test ipRegex a \<Longrightarrow>
   result (feed (getCoordinatesFromIP a) xs) =
     (case xs of [] \<Rightarrow> None | x1 # xs1 \<Rightarrow>
      (case body1 x1 of Return v \<Rightarrow> Some (Fulfilled v) | _ \<Rightarrow>
      (case xs1 of [] \<Rightarrow> None | x2 # xs2 \<Rightarrow>
      (case body2 x2 of Return v \<Rightarrow> Some (Fulfilled v) | _ \<Rightarrow>
      (case xs2 of [] \<Rightarrow> None | x3 # xs3 \<Rightarrow>
      (case body2 x3 of Return v \<Rightarrow> Some (Fulfilled v) | _ \<Rightarrow> Some (Fulfilled JNull)))))))"
  by (simp add: getCoordinatesFromIP_def try_catch_def attempt1_def attempt2_def attempt3_def
      result_feed split: list.splits completion.splits)

lemma feed_never_rejects: "result (feed (getCoordinatesFromIP a) xs) \<noteq> Some (Rejected e)"
  by (cases "test ipRegex a")
    (simp_all add: feed_invalid feed_valid split: list.splits completion.splits)

text \<open>A lookup has returned once three answers have reached it.\<close>

lemma feed_three:
  "3 \<le> length xs \<Longrightarrow> \<exists>v. result (feed (getCoordinatesFromIP a) xs) = Some (Fulfilled v)"
  by (cases "test ipRegex a")
    (auto simp: feed_invalid feed_valid split: list.splits completion.splits)

lemma result_feed_lookup_task:
  "result (feed (lookup_task a) xs) =
     map_option (\<lambda>s. case s of Rejected e \<Rightarrow> Rejected e
                      | Fulfilled c \<Rightarrow> Fulfilled \<lparr>ip = a, coords = c\<rparr>)
       (result (feed (getCoordinatesFromIP a) xs))"
proof -
  have "lookup_task a =
      bind (getCoordinatesFromIP a)
        (\<lambda>s. Ret (case s of Rejected e \<Rightarrow> Rejected e
                    | Fulfilled c \<Rightarrow> Fulfilled \<lparr>ip = a, coords = c\<rparr>))"
    unfolding lookup_task_def await_def
    by (rule arg_cong [where f = "bind (getCoordinatesFromIP a)"]) (auto split: settled.splits)
  then show ?thesis by (simp only: result_feed_bind_Ret)
qed

text \<open>Each task of the pool sees its own answers only, whatever the order of the events.\<close>

lemma length_pool: "length (foldl on_event pool events) = length pool"
  by (induction events arbitrary: pool) (simp_all add: on_event_def split: prod.splits)

lemma nth_pool:
  "i < length pool \<Longrightarrow> foldl on_event pool events ! i = feed (pool ! i) (answers_to i events)"
proof (induction events arbitrary: pool)
  case Nil
  show ?case by (simp add: answers_to_def)
next
  case (Cons ev events)
  obtain j x where ev: "ev = (j, x)" by (cases ev)
  have len: "i < length (on_event pool ev)"
    using Cons.prems by (simp add: on_event_def ev)
  show ?case
    using Cons.IH [OF len] Cons.prems
    by (auto simp: on_event_def ev answers_to_def nth_list_update)
qed

lemma task_result:
  "i < length ips \<Longrightarrow>
   result (foldl on_event (map lookup_task ips) events ! i) =
     map_option (\<lambda>s. case s of Rejected e \<Rightarrow> Rejected e
                      | Fulfilled c \<Rightarrow> Fulfilled \<lparr>ip = ips ! i, coords = c\<rparr>)
       (result (feed (getCoordinatesFromIP (ips ! i)) (answers_to i events)))"
  by (simp add: nth_pool result_feed_lookup_task)

lemma task_Fulfilled:
  assumes "i < length ips"
  shows "result (foldl on_event (map lookup_task ips) events ! i) = Some (Fulfilled r) \<longleftrightarrow>
     (\<exists>c. result (feed (getCoordinatesFromIP (ips ! i)) (answers_to i events)) = Some (Fulfilled c)
        \<and> r = \<lparr>ip = ips ! i, coords = c\<rparr>)"
proof (cases "result (feed (getCoordinatesFromIP (ips ! i)) (answers_to i events))")
  case None
  then show ?thesis by (simp add: task_result [OF assms])
next
  case (Some s)
  then show ?thesis by (cases s) (auto simp: task_result [OF assms])
qed

lemma task_Rejected:
  assumes "i < length ips"
  shows "result (foldl on_event (map lookup_task ips) events ! i) \<noteq> Some (Rejected e)"
proof (cases "result (feed (getCoordinatesFromIP (ips ! i)) (answers_to i events))")
  case None
  then show ?thesis by (simp add: task_result [OF assms])
next
  case (Some s)
  with feed_never_rejects [of "ips ! i" "answers_to i events"]
  show ?thesis by (cases s) (auto simp: task_result [OF assms])
qed

lemma promise_all_Fulfilled:
  "promise_all ps = Some (Fulfilled vs) \<longleftrightarrow> ps = map (\<lambda>v. Some (Fulfilled v)) vs"
proof
  show "promise_all ps = Some (Fulfilled vs) \<Longrightarrow> ps = map (\<lambda>v. Some (Fulfilled v)) vs"
    by (induction ps arbitrary: vs) (auto split: option.splits settled.splits)
  have "promise_all (map (\<lambda>v. Some (Fulfilled v)) vs) = Some (Fulfilled vs)"
    by (induction vs) simp_all
  then show "ps = map (\<lambda>v. Some (Fulfilled v)) vs \<Longrightarrow> promise_all ps = Some (Fulfilled vs)"
    by simp
qed

lemma promise_all_Rejected:
  "promise_all ps = Some (Rejected e) \<Longrightarrow> Some (Rejected e) \<in> set ps"
  by (induction ps) (auto split: option.splits settled.splits)

lemma batch_not_rejected: "getCoordinatesFromIPs ips events \<noteq> Some (Rejected e)"
proof
  assume "getCoordinatesFromIPs ips events = Some (Rejected e)"
  then have "Some (Rejected e) \<in> set (map result (foldl on_event (map lookup_task ips) events))"
    unfolding getCoordinatesFromIPs_def by (rule promise_all_Rejected)
  then obtain i where i: "i < length ips"
    and r: "result (foldl on_event (map lookup_task ips) events ! i) = Some (Rejected e)"
    by (auto simp: in_set_conv_nth length_pool)
  from r task_Rejected [OF i] show False by simp
qed

lemma batch_fulfilled:
  assumes "getCoordinatesFromIPs ips events = Some (Fulfilled rs)"
  shows "length rs = length ips"
    and "i < length ips \<Longrightarrow> ip (rs ! i) = ips ! i"
    and "i < length ips \<Longrightarrow>
         result (feed (getCoordinatesFromIP (ips ! i)) (answers_to i events))
           = Some (Fulfilled (coords (rs ! i)))"
proof -
  from assms have eq: "map result (foldl on_event (map lookup_task ips) events)
      = map (\<lambda>v. Some (Fulfilled v)) rs"
    by (simp add: getCoordinatesFromIPs_def promise_all_Fulfilled)
  from arg_cong [OF eq, of length] show len: "length rs = length ips"
    by (simp add: length_pool)
  {
    assume i: "i < length ips"
    from arg_cong [OF eq, of "\<lambda>xs. xs ! i"] i len
    have "result (foldl on_event (map lookup_task ips) events ! i) = Some (Fulfilled (rs ! i))"
      by (simp add: length_pool)
    then obtain c where
      c: "result (feed (getCoordinatesFromIP (ips ! i)) (answers_to i events)) = Some (Fulfilled c)"
      and r: "rs ! i = \<lparr>ip = ips ! i, coords = c\<rparr>"
      unfolding task_Fulfilled [OF i] by blast
    from r show "ip (rs ! i) = ips ! i" by simp
    from c r show "result (feed (getCoordinatesFromIP (ips ! i)) (answers_to i events))
           = Some (Fulfilled (coords (rs ! i)))" by simp
  }
qed

lemma batch_settles:
  assumes "\<forall>i < length ips.
      result (feed (getCoordinatesFromIP (ips ! i)) (answers_to i events)) \<noteq> None"
  shows "\<exists>rs. getCoordinatesFromIPs ips events = Some (Fulfilled rs)"
proof -
  let ?pool = "foldl on_event (map lookup_task ips) events"
  have "\<forall>i < length ips. \<exists>v. result (?pool ! i) = Some (Fulfilled v)"
  proof (intro allI impI)
    fix i assume i: "i < length ips"
    with assms obtain s where
      s: "result (feed (getCoordinatesFromIP (ips ! i)) (answers_to i events)) = Some s"
      by auto
    with feed_never_rejects [of "ips ! i" "answers_to i events"]
    show "\<exists>v. result (?pool ! i) = Some (Fulfilled v)"
      by (cases s) (auto simp: task_result [OF i])
  qed
  then obtain f where f: "\<forall>i < length ips. result (?pool ! i) = Some (Fulfilled (f i))"
    by metis
  have "map result ?pool = map (\<lambda>v. Some (Fulfilled v)) (map f [0 ..< length ips])"
    by (rule nth_equalityI) (simp_all add: length_pool f)
  then show ?thesis
    unfolding getCoordinatesFromIPs_def promise_all_Fulfilled by blast
qed

subsection \<open>Further facts about a lookup, and an example run\<close>

lemma first_request:
  "test ipRegex a \<Longrightarrow>
   \<exists>rest. requests (snd (run (getCoordinatesFromIP a) w)) = requests w @ url1 a # rest"
  by (simp add: run_valid_requests split: completion.splits)

lemma no_early_return: "test ipRegex a \<Longrightarrow> result (getCoordinatesFromIP a) = None"
  by (simp add: getCoordinatesFromIP_def try_catch_def attempt1_def)

lemma length_endpoints: "length (concat (map (\<lambda>pair. [srcIP pair, dstIP pair]) pairs)) = 2 * length pairs"
  by (induction pairs) simp_all

lemma endpoint_results_example:
  "endpoint_results example_pairs (scripted [Fulfilled ok1, Fulfilled ok1, Fulfilled ok1]) =
     [(Fulfilled mountain_view, Fulfilled mountain_view),
      (Fulfilled JNull, Fulfilled mountain_view)]"
proof -
  have v: "test ipRegex ''8.8.8.8''" "test ipRegex ''1.1.1.1''" "\<not> test ipRegex ''bad''"
    by code_simp+
  show ?thesis
    by (simp add: example_pairs_def getCoordinatesFromIP_def v run_bind run_try1
        scripted_def ok1_def body1_def check1_def mountain_view_def)
qed

subsection \<open>What a lookup returns, and the world a loop leaves\<close>

lemma body1_carried: "body1 x = Return v \<Longrightarrow> carried x ''lon'' ''lat'' v"
  by (auto simp: body1_def check1_def carried_def
      split: settled.splits sum.splits if_splits response.splits option.splits)

lemma body2_carried: "body2 x = Return v \<Longrightarrow> carried x ''longitude'' ''latitude'' v"
  by (auto simp: body2_def check2_def carried_def
      split: settled.splits sum.splits if_splits response.splits option.splits)

lemma carried_truthy:
  "carried x klon klat v \<Longrightarrow> \<exists>lon lat. v = JArr [lon, lat] \<and> truthy lon \<and> truthy lat"
proof -
  assume c: "carried x klon klat v"
  then obtain data where x: "x = Fulfilled (Response (Some data))"
    by (auto simp: carried_def split: settled.splits response.splits option.splits)
  from c x obtain lon where lon: "read_prop data klon = Inr lon"
    by (cases "read_prop data klon") (simp_all add: carried_def)
  from c x lon obtain lat where lat: "read_prop data klat = Inr lat"
    by (cases "read_prop data klat") (simp_all add: carried_def)
  from c x lon lat show ?thesis by (simp add: carried_def)
qed

lemma carried_numbers:
  assumes "carried x klon klat v" and "x = Fulfilled (Response (Some data))"
    and "read_prop data klon = Inr (JNum lon)" and "read_prop data klat = Inr (JNum lat)"
  shows "coordinate_pair v"
  using assms by (simp add: carried_def)

lemma run_carried:
  "\<exists>v. fst (run (getCoordinatesFromIP a) w) = Fulfilled v \<and>
       (v = JNull \<or> carried (answer1 a w) ''lon'' ''lat'' v \<or>
        carried (answer2 a w) ''longitude'' ''latitude'' v \<or>
        carried (answer3 a w) ''longitude'' ''latitude'' v)"
proof (cases "test ipRegex a")
  case False
  then show ?thesis by (simp add: run_invalid)
next
  case True
  show ?thesis
    unfolding run_valid_fst [OF True]
    by (auto split: completion.splits dest: body1_carried body2_carried)
qed

lemma feed_truthy:
  assumes "result (feed (getCoordinatesFromIP a) xs) = Some (Fulfilled v)"
  shows "v = JNull \<or> (\<exists>lon lat. v = JArr [lon, lat] \<and> truthy lon \<and> truthy lat)"
proof (cases "test ipRegex a")
  case False
  with assms show ?thesis by (simp add: feed_invalid)
next
  case True
  with assms show ?thesis
    by (auto simp: feed_valid split: list.splits completion.splits
        dest!: body1_carried body2_carried dest: carried_truthy)
qed

lemma for_pairs_nullable_Some:
  "for_pairs_nullable (map Some pairs) flows = for_pairs pairs flows"
  by (induction pairs arbitrary: flows) simp_all

lemma world_for_pairs:
  "snd (run (for_pairs pairs flows) w) =
     foldl (\<lambda>w' a. snd (run (getCoordinatesFromIP a) w')) w
       (concat (map (\<lambda>pair. [srcIP pair, dstIP pair]) pairs))"
proof (induction pairs arbitrary: flows w)
  case Nil
  show ?case by simp
next
  case (Cons pair rest)
  show ?case
  proof (cases rule: run_cases [of "srcIP pair" w])
    case (1 w1)
    then show ?thesis
      by (cases rule: run_cases [of "dstIP pair" w1]) (simp_all add: run_await Cons.IH)
  next
    case (2 lon lat w1)
    then show ?thesis
      by (cases rule: run_cases [of "dstIP pair" w1]) (simp_all add: run_await Cons.IH)
  qed
qed

section \<open>The claims\<close>

text \<open>
  C1: for a valid address, when the answer of provider 1 carries the status \<open>success\<close> and
  numbers other than zero as \<open>lon\<close> and \<open>lat\<close>, the lookup returns exactly the pair of
  these two numbers, and the request to provider 1 is the only request it makes.
\<close>

theorem first_provider_success:
  assumes "test ipRegex a"
    and "answer1 a w = Fulfilled (Response (Some data1))"
    and "read_prop data1 ''status'' = Inr (JStr ''success'')"
    and "read_prop data1 ''lon'' = Inr (JNum lon)" and "lon \<noteq> Finite 0"
    and "read_prop data1 ''lat'' = Inr (JNum lat)" and "lat \<noteq> Finite 0"
  shows "fst (run (getCoordinatesFromIP a) w) = Fulfilled (JArr [JNum lon, JNum lat]) \<and>
         requests (snd (run (getCoordinatesFromIP a) w)) = requests w @ [url1 a]"
proof -
  from assms(2-7) have "body1 (answer1 a w) = Return (JArr [JNum lon, JNum lat])"
    by (simp add: body1_def check1_def)
  then show ?thesis
    by (simp add: run_valid_fst [OF assms(1)] run_valid_requests [OF assms(1)])
qed

theorem first_provider_success_witness:
  "test ipRegex ''8.8.8.8'' \<and>
   answer1 ''8.8.8.8'' (scripted [Fulfilled ok1]) = Fulfilled ok1 \<and>
   fst (run (getCoordinatesFromIP ''8.8.8.8'') (scripted [Fulfilled ok1]))
     = Fulfilled mountain_view \<and>
   requests (snd (run (getCoordinatesFromIP ''8.8.8.8'') (scripted [Fulfilled ok1])))
     = [''http://ip-api.com/json/8.8.8.8?fields=status,message,lon,lat'']"
proof -
  have v: "test ipRegex ''8.8.8.8''" by code_simp
  have a: "answer1 ''8.8.8.8'' (scripted [Fulfilled ok1]) = Fulfilled (Response (Some (JObj
     [(''status'', JStr ''success''),
      (''lon'', JNum (Finite (-122.0838))), (''lat'', JNum (Finite 37.4))])))"
    by (simp add: answer1_eq scripted_def ok1_def)
  from first_provider_success [OF v a, of "Finite (-122.0838)" "Finite 37.4"] v a
  show ?thesis
    by (simp add: mountain_view_def ok1_def scripted_def url1_def)
qed

text \<open>
  C2: for a string that the regular expression does not match, the lookup returns
  \<open>null\<close> and makes no request: the list of requests is unchanged, and the function
  has returned before it awaits anything.
\<close>

theorem malformed_no_request:
  assumes "\<not> test ipRegex a"
  shows "fst (run (getCoordinatesFromIP a) w) = Fulfilled JNull \<and>
         requests (snd (run (getCoordinatesFromIP a) w)) = requests w \<and>
         result (getCoordinatesFromIP a) = Some (Fulfilled JNull)"
  using assms by (simp add: run_invalid getCoordinatesFromIP_def)

theorem malformed_no_request_witness:
  "\<not> test ipRegex ''8.8.8'' \<and>
   fst (run (getCoordinatesFromIP ''8.8.8'') (scripted [Fulfilled ok1])) = Fulfilled JNull \<and>
   requests (snd (run (getCoordinatesFromIP ''8.8.8'') (scripted [Fulfilled ok1]))) = [] \<and>
   result (getCoordinatesFromIP ''8.8.8'') = Some (Fulfilled JNull)"
proof -
  have v: "\<not> test ipRegex ''8.8.8''" by code_simp
  from malformed_no_request [OF v, of "scripted [Fulfilled ok1]"] v
  show ?thesis by (simp add: scripted_def)
qed

text \<open>
  C3: whatever the order in which the answers arrive, the batch never rejects; it is
  fulfilled exactly when every lookup has returned, which each has after at most three
  answers; and its value then has the length of the input, with the i-th entry made of
  the i-th address and of what the lookup of that address returned on the answers it
  received (\<open>null\<close> when the lookup failed).
\<close>

theorem batch_keeps_length_and_order:
  "(\<forall>e. getCoordinatesFromIPs ips events \<noteq> Some (Rejected e)) \<and>
   (\<forall>rs. getCoordinatesFromIPs ips events = Some (Fulfilled rs) \<longrightarrow>
      length rs = length ips \<and>
      (\<forall>i < length ips.
         ip (rs ! i) = ips ! i \<and>
         result (feed (getCoordinatesFromIP (ips ! i)) (answers_to i events))
           = Some (Fulfilled (coords (rs ! i))))) \<and>
   ((\<forall>i < length ips.
       result (feed (getCoordinatesFromIP (ips ! i)) (answers_to i events)) \<noteq> None)
    \<longrightarrow> (\<exists>rs. getCoordinatesFromIPs ips events = Some (Fulfilled rs))) \<and>
   ((\<forall>i < length ips. 3 \<le> length (answers_to i events))
    \<longrightarrow> (\<exists>rs. getCoordinatesFromIPs ips events = Some (Fulfilled rs)))"
proof (intro conjI allI impI)
  fix e show "getCoordinatesFromIPs ips events \<noteq> Some (Rejected e)"
    by (rule batch_not_rejected)
next
  fix rs assume "getCoordinatesFromIPs ips events = Some (Fulfilled rs)"
  then show "length rs = length ips" by (rule batch_fulfilled(1))
next
  fix rs i assume "getCoordinatesFromIPs ips events = Some (Fulfilled rs)" "i < length ips"
  then show "ip (rs ! i) = ips ! i" by (rule batch_fulfilled(2))
next
  fix rs i assume "getCoordinatesFromIPs ips events = Some (Fulfilled rs)" "i < length ips"
  then show "result (feed (getCoordinatesFromIP (ips ! i)) (answers_to i events))
      = Some (Fulfilled (coords (rs ! i)))"
    by (rule batch_fulfilled(3))
next
  assume "\<forall>i < length ips.
    result (feed (getCoordinatesFromIP (ips ! i)) (answers_to i events)) \<noteq> None"
  then show "\<exists>rs. getCoordinatesFromIPs ips events = Some (Fulfilled rs)"
    by (rule batch_settles)
next
  assume three: "\<forall>i < length ips. 3 \<le> length (answers_to i events)"
  have "\<forall>i < length ips.
    result (feed (getCoordinatesFromIP (ips ! i)) (answers_to i events)) \<noteq> None"
  proof (intro allI impI)
    fix i assume "i < length ips"
    with three have "3 \<le> length (answers_to i events)" by simp
    from feed_three [OF this, of "ips ! i"]
    show "result (feed (getCoordinatesFromIP (ips ! i)) (answers_to i events)) \<noteq> None"
      by auto
  qed
  then show "\<exists>rs. getCoordinatesFromIPs ips events = Some (Fulfilled rs)"
    by (rule batch_settles)
qed

theorem batch_keeps_length_and_order_witness:
  "length (answers_to 0 interleaved) = 3 \<and> length (answers_to 1 interleaved) = 3 \<and>
   getCoordinatesFromIPs [''1.1.1.1'', ''8.8.8.8''] interleaved =
     Some (Fulfilled [\<lparr>ip = ''1.1.1.1'', coords = JNull\<rparr>,
                      \<lparr>ip = ''8.8.8.8'', coords = mountain_view\<rparr>])"
proof -
  let ?ips = "[''1.1.1.1'', ''8.8.8.8'']"
  have three: "\<forall>i < length ?ips. 3 \<le> length (answers_to i interleaved)"
    by (simp add: interleaved_def answers_to_def less_Suc_eq)
  have v0: "test ipRegex ''1.1.1.1''" by code_simp
  have v1: "test ipRegex ''8.8.8.8''" by code_simp
  from three batch_keeps_length_and_order [of ?ips interleaved]
  obtain rs where rs: "getCoordinatesFromIPs ?ips interleaved = Some (Fulfilled rs)"
    and len: "length rs = 2"
    and e0: "ip (rs ! 0) = ''1.1.1.1''"
      "result (feed (getCoordinatesFromIP ''1.1.1.1'') (answers_to 0 interleaved))
         = Some (Fulfilled (coords (rs ! 0)))"
    and e1: "ip (rs ! 1) = ''8.8.8.8''"
      "result (feed (getCoordinatesFromIP ''8.8.8.8'') (answers_to 1 interleaved))
         = Some (Fulfilled (coords (rs ! 1)))"
    by fastforce
  have "answers_to 0 interleaved =
      [Rejected FetchFailed, Fulfilled (Response None), Fulfilled rate_limited]"
    by (simp add: interleaved_def answers_to_def)
  moreover have "result (feed (getCoordinatesFromIP ''1.1.1.1'')
      [Rejected FetchFailed, Fulfilled (Response None), Fulfilled rate_limited])
      = Some (Fulfilled JNull)"
    by (subst feed_valid [OF v0])
      (simp add: body1_def body2_def check2_def rate_limited_def)
  ultimately have c0: "coords (rs ! 0) = JNull"
    using e0(2) by simp
  have "answers_to 1 interleaved = [Rejected FetchFailed, Rejected FetchFailed, Fulfilled ok2]"
    by (simp add: interleaved_def answers_to_def)
  moreover have "result (feed (getCoordinatesFromIP ''8.8.8.8'')
      [Rejected FetchFailed, Rejected FetchFailed, Fulfilled ok2])
      = Some (Fulfilled mountain_view)"
    by (subst feed_valid [OF v1])
      (simp add: body1_def body2_def check2_def ok2_def mountain_view_def)
  ultimately have c1: "coords (rs ! 1) = mountain_view"
    using e1(2) by simp
  from len obtain r0 r1 where "rs = [r0, r1]"
    by (cases rs; simp; rename_tac rs', case_tac rs'; simp)
  with e0(1) e1(1) c0 c1 have "rs = [\<lparr>ip = ''1.1.1.1'', coords = JNull\<rparr>,
                      \<lparr>ip = ''8.8.8.8'', coords = mountain_view\<rparr>]"
    by simp
  with rs show ?thesis by (simp add: interleaved_def answers_to_def)
qed

text \<open>
  C4: the flows returned are the flows of those pairs both of whose lookups returned
  coordinates, in the order of the pairs: a pair has a flow if and only if neither of its
  two lookups returned \<open>null\<close>, a pair without one leaves nothing, and there are at most
  as many flows as pairs.
\<close>

theorem flows_only_for_resolved_pairs:
  "fst (run (createFlowsFromIPs pairs) w)
     = Fulfilled (List.map_filter flow_of (endpoint_results pairs w)) \<and>
   length (endpoint_results pairs w) = length pairs \<and>
   (\<forall>(s, d) \<in> set (endpoint_results pairs w).
      flow_of (s, d) = None \<longleftrightarrow> s = Fulfilled JNull \<or> d = Fulfilled JNull) \<and>
   length (List.map_filter flow_of (endpoint_results pairs w)) \<le> length pairs"
proof (intro conjI)
  show "fst (run (createFlowsFromIPs pairs) w)
     = Fulfilled (List.map_filter flow_of (endpoint_results pairs w))"
    by (simp add: createFlowsFromIPs_def run_for_pairs)
  show "length (endpoint_results pairs w) = length pairs"
    by (rule length_endpoint_results)
  show "\<forall>(s, d) \<in> set (endpoint_results pairs w).
      flow_of (s, d) = None \<longleftrightarrow> s = Fulfilled JNull \<or> d = Fulfilled JNull"
  proof (clarify del: iffI)
    fix s d assume "(s, d) \<in> set (endpoint_results pairs w)"
    from endpoint_results_shape [OF this]
    show "flow_of (s, d) = None \<longleftrightarrow> s = Fulfilled JNull \<or> d = Fulfilled JNull"
      by (intro flow_of_None_iff) simp_all
  qed
  show "length (List.map_filter flow_of (endpoint_results pairs w)) \<le> length pairs"
    using length_map_filter_le [of flow_of "endpoint_results pairs w"]
    by (simp add: length_endpoint_results)
qed

theorem flows_only_for_resolved_pairs_witness:
  "endpoint_results example_pairs (scripted [Fulfilled ok1, Fulfilled ok1, Fulfilled ok1]) =
     [(Fulfilled mountain_view, Fulfilled mountain_view),
      (Fulfilled JNull, Fulfilled mountain_view)] \<and>
   fst (run (createFlowsFromIPs example_pairs)
          (scripted [Fulfilled ok1, Fulfilled ok1, Fulfilled ok1]))
     = Fulfilled [\<lparr>src = mountain_view, dst = mountain_view\<rparr>]"
  using flows_only_for_resolved_pairs
    [of example_pairs "scripted [Fulfilled ok1, Fulfilled ok1, Fulfilled ok1]"]
  by (simp add: endpoint_results_example mountain_view_def)

text \<open>
  C5: a provider whose answer carries a longitude or a latitude of exactly 0 counts as
  failed. For a valid address: with such an answer from provider 1 the lookup asks
  provider 2 and its result is decided by providers 2 and 3; with such an answer from
  provider 2, after an unusable one from provider 1, it asks provider 3, which decides
  the result; with such an answer from provider 3, after two unusable ones, it returns
  \<open>null\<close>.
\<close>

theorem zero_coordinate_falls_through:
  assumes "test ipRegex a"
  shows
   "(answer1 a w = Fulfilled (Response (Some data)) \<and>
       (read_prop data ''lon'' = Inr (JNum (Finite 0)) \<or>
        read_prop data ''lat'' = Inr (JNum (Finite 0)))
     \<longrightarrow> \<not> usable1 (answer1 a w) \<and>
         (\<exists>rest. requests (snd (run (getCoordinatesFromIP a) w))
                   = requests w @ url1 a # url2 a # rest) \<and>
         fst (run (getCoordinatesFromIP a) w) =
           (case body2 (answer2 a w) of Return v \<Rightarrow> Fulfilled v | _ \<Rightarrow>
           (case body2 (answer3 a w) of Return v \<Rightarrow> Fulfilled v | _ \<Rightarrow> Fulfilled JNull))) \<and>
    (\<not> usable1 (answer1 a w) \<and> answer2 a w = Fulfilled (Response (Some data)) \<and>
       (read_prop data ''longitude'' = Inr (JNum (Finite 0)) \<or>
        read_prop data ''latitude'' = Inr (JNum (Finite 0)))
     \<longrightarrow> \<not> usable2 (answer2 a w) \<and>
         requests (snd (run (getCoordinatesFromIP a) w))
           = requests w @ [url1 a, url2 a, url3 a] \<and>
         fst (run (getCoordinatesFromIP a) w) =
           (case body2 (answer3 a w) of Return v \<Rightarrow> Fulfilled v | _ \<Rightarrow> Fulfilled JNull)) \<and>
    (\<not> usable1 (answer1 a w) \<and> \<not> usable2 (answer2 a w) \<and>
       answer3 a w = Fulfilled (Response (Some data)) \<and>
       (read_prop data ''longitude'' = Inr (JNum (Finite 0)) \<or>
        read_prop data ''latitude'' = Inr (JNum (Finite 0)))
     \<longrightarrow> \<not> usable2 (answer3 a w) \<and>
         fst (run (getCoordinatesFromIP a) w) = Fulfilled JNull)"
proof -
  note run = run_valid_fst [OF assms] run_valid_requests [OF assms]
  have zero1: "\<not> usable1 x"
    if "x = Fulfilled (Response (Some data))"
      "read_prop data ''lon'' = Inr (JNum (Finite 0)) \<or>
       read_prop data ''lat'' = Inr (JNum (Finite 0))" for x
    using that by (auto simp: usable1_def present_truthy_def)
  have zero2: "\<not> usable2 x"
    if "x = Fulfilled (Response (Some data))"
      "read_prop data ''longitude'' = Inr (JNum (Finite 0)) \<or>
       read_prop data ''latitude'' = Inr (JNum (Finite 0))" for x
    using that by (auto simp: usable2_def present_truthy_def)
  have after1: "(\<exists>rest. requests (snd (run (getCoordinatesFromIP a) w))
                   = requests w @ url1 a # url2 a # rest) \<and>
      fst (run (getCoordinatesFromIP a) w) =
        (case body2 (answer2 a w) of Return v \<Rightarrow> Fulfilled v | _ \<Rightarrow>
        (case body2 (answer3 a w) of Return v \<Rightarrow> Fulfilled v | _ \<Rightarrow> Fulfilled JNull))"
    if "\<not> usable1 (answer1 a w)"
    using unusable1 [OF that] by (auto simp: run split: completion.splits)
  have after2: "requests (snd (run (getCoordinatesFromIP a) w))
        = requests w @ [url1 a, url2 a, url3 a] \<and>
      fst (run (getCoordinatesFromIP a) w) =
        (case body2 (answer3 a w) of Return v \<Rightarrow> Fulfilled v | _ \<Rightarrow> Fulfilled JNull)"
    if "\<not> usable1 (answer1 a w)" "\<not> usable2 (answer2 a w)"
    using unusable1 [OF that(1)] unusable2 [OF that(2)]
    by (auto simp: run split: completion.splits)
  have after3: "fst (run (getCoordinatesFromIP a) w) = Fulfilled JNull"
    if "\<not> usable1 (answer1 a w)" "\<not> usable2 (answer2 a w)" "\<not> usable2 (answer3 a w)"
    using unusable1 [OF that(1)] unusable2 [OF that(2)] unusable2 [OF that(3)]
    by (auto simp: run split: completion.splits)
  show ?thesis
    using zero1 [of "answer1 a w"] zero2 [of "answer2 a w"] zero2 [of "answer3 a w"]
      after1 after2 after3
    by blast
qed

theorem zero_coordinate_falls_through_witness:
  "answer1 ''8.8.8.8'' (scripted [Fulfilled zero1, Fulfilled zero2, Fulfilled zero3])
     = Fulfilled zero1 \<and>
   answer2 ''8.8.8.8'' (scripted [Fulfilled zero1, Fulfilled zero2, Fulfilled zero3])
     = Fulfilled zero2 \<and>
   answer3 ''8.8.8.8'' (scripted [Fulfilled zero1, Fulfilled zero2, Fulfilled zero3])
     = Fulfilled zero3 \<and>
   requests (snd (run (getCoordinatesFromIP ''8.8.8.8'')
       (scripted [Fulfilled zero1, Fulfilled zero2, Fulfilled zero3])))
     = [url1 ''8.8.8.8'', url2 ''8.8.8.8'', url3 ''8.8.8.8''] \<and>
   fst (run (getCoordinatesFromIP ''8.8.8.8'')
       (scripted [Fulfilled zero1, Fulfilled zero2, Fulfilled zero3]))
     = Fulfilled JNull"
proof -
  let ?w = "scripted [Fulfilled zero1, Fulfilled zero2, Fulfilled zero3]"
  let ?d1 = "JObj [(''status'', JStr ''success''), (''lon'', JNum (Finite 0)),
                   (''lat'', JNum (Finite 51.5))]"
  let ?d2 = "JObj [(''longitude'', JNum (Finite 9.5)), (''latitude'', JNum (Finite 0))]"
  let ?d3 = "JObj [(''longitude'', JNum (Finite 0)), (''latitude'', JNum (Finite 0))]"
  have v: "test ipRegex ''8.8.8.8''" by code_simp
  have a1: "answer1 ''8.8.8.8'' ?w = Fulfilled (Response (Some ?d1))"
    and a2: "answer2 ''8.8.8.8'' ?w = Fulfilled (Response (Some ?d2))"
    and a3: "answer3 ''8.8.8.8'' ?w = Fulfilled (Response (Some ?d3))"
    by (simp_all add: answer1_eq answer2_eq answer3_eq scripted_def zero1_def zero2_def zero3_def)
  have z1: "read_prop ?d1 ''lon'' = Inr (JNum (Finite 0))"
    and z2: "read_prop ?d2 ''latitude'' = Inr (JNum (Finite 0))"
    and z3: "read_prop ?d3 ''longitude'' = Inr (JNum (Finite 0))"
    by simp_all
  from zero_coordinate_falls_through [OF v, of ?w ?d1] a1 z1
  have u1: "\<not> usable1 (answer1 ''8.8.8.8'' ?w)" by blast
  from zero_coordinate_falls_through [OF v, of ?w ?d2] u1 a2 z2
  have u2: "\<not> usable2 (answer2 ''8.8.8.8'' ?w)"
    and r: "requests (snd (run (getCoordinatesFromIP ''8.8.8.8'') ?w))
      = requests ?w @ [url1 ''8.8.8.8'', url2 ''8.8.8.8'', url3 ''8.8.8.8'']"
    by blast+
  from zero_coordinate_falls_through [OF v, of ?w ?d3] u1 u2 a3 z3
  have n: "fst (run (getCoordinatesFromIP ''8.8.8.8'') ?w) = Fulfilled JNull" by blast
  from r have "requests (snd (run (getCoordinatesFromIP ''8.8.8.8'') ?w))
      = [url1 ''8.8.8.8'', url2 ''8.8.8.8'', url3 ''8.8.8.8'']"
    by (simp add: scripted_def)
  with a1 a2 a3 n show ?thesis
    by (simp add: zero1_def zero2_def zero3_def)
qed

text \<open>
  C6: for a valid address, when none of the three answers is usable (the request failed,
  the body was not JSON, or the data lacked what the check needs), the lookup returns
  \<open>null\<close> after exactly three requests, one to each provider in order.
\<close>

theorem all_providers_fail:
  assumes "test ipRegex a"
    and "\<not> usable1 (answer1 a w)" and "\<not> usable2 (answer2 a w)" and "\<not> usable2 (answer3 a w)"
  shows "fst (run (getCoordinatesFromIP a) w) = Fulfilled JNull \<and>
         requests (snd (run (getCoordinatesFromIP a) w))
           = requests w @ [url1 a, url2 a, url3 a]"
  using unusable1 [OF assms(2)] unusable2 [OF assms(3)] unusable2 [OF assms(4)]
  by (auto simp: run_valid_fst [OF assms(1)] run_valid_requests [OF assms(1)]
      split: completion.splits)

theorem all_providers_fail_witness:
  "\<not> usable1 (Rejected FetchFailed) \<and> \<not> usable2 (Fulfilled (Response None)) \<and>
   \<not> usable2 (Fulfilled (Response (Some JNull))) \<and>
   fst (run (getCoordinatesFromIP ''1.1.1.1'')
       (scripted [Rejected FetchFailed, Fulfilled (Response None),
                  Fulfilled (Response (Some JNull))]))
     = Fulfilled JNull \<and>
   requests (snd (run (getCoordinatesFromIP ''1.1.1.1'')
       (scripted [Rejected FetchFailed, Fulfilled (Response None),
                  Fulfilled (Response (Some JNull))])))
     = [''http://ip-api.com/json/1.1.1.1?fields=status,message,lon,lat'',
        ''https://ipapi.co/1.1.1.1/json/'', ''https://ip-api.io/json/1.1.1.1'']"
proof -
  let ?w = "scripted [Rejected FetchFailed, Fulfilled (Response None),
                      Fulfilled (Response (Some JNull))]"
  have v: "test ipRegex ''1.1.1.1''" by code_simp
  have a: "answer1 ''1.1.1.1'' ?w = Rejected FetchFailed"
    "answer2 ''1.1.1.1'' ?w = Fulfilled (Response None)"
    "answer3 ''1.1.1.1'' ?w = Fulfilled (Response (Some JNull))"
    by (simp_all add: answer1_eq answer2_eq answer3_eq scripted_def)
  have u: "\<not> usable1 (Rejected FetchFailed)" "\<not> usable2 (Fulfilled (Response None))"
    "\<not> usable2 (Fulfilled (Response (Some JNull)))"
    by (simp_all add: usable1_def usable2_def present_truthy_def)
  from all_providers_fail [OF v, of ?w] a u
  show ?thesis
    by (simp add: scripted_def url1_def url2_def url3_def)
qed



text \<open>
  C8, for inputs of the declared parameter types: on them none of the three functions
  rejects. A lookup of a string is fulfilled with \<open>null\<close> or with the array of the two
  truthy values that the answer of one provider carried, in a sequential run and under
  any answers fed to it; a malformed address and a valid one whose three providers all
  fail are fulfilled with the same \<open>null\<close>; the batch over a list of strings is never
  rejected and its entries carry \<open>null\<close> or such an array; the flow builder over a list
  of pairs is fulfilled with a list of flows, and on such a list the loop that admits
  \<open>null\<close> elements is the same loop.
\<close>

theorem no_function_rejects:
  "(\<exists>v. fst (run (getCoordinatesFromIP a) w) = Fulfilled v \<and>
        (v = JNull \<or> carried (answer1 a w) ''lon'' ''lat'' v \<or>
         carried (answer2 a w) ''longitude'' ''latitude'' v \<or>
         carried (answer3 a w) ''longitude'' ''latitude'' v) \<and>
        (v = JNull \<or> (\<exists>lon lat. v = JArr [lon, lat] \<and> truthy lon \<and> truthy lat))) \<and>
   (\<forall>xs e. result (feed (getCoordinatesFromIP a) xs) \<noteq> Some (Rejected e)) \<and>
   (\<not> test ipRegex a \<longrightarrow> fst (run (getCoordinatesFromIP a) w) = Fulfilled JNull) \<and>
   (test ipRegex a \<and> \<not> usable1 (answer1 a w) \<and> \<not> usable2 (answer2 a w) \<and>
      \<not> usable2 (answer3 a w) \<longrightarrow> fst (run (getCoordinatesFromIP a) w) = Fulfilled JNull) \<and>
   (\<forall>e. getCoordinatesFromIPs ips events \<noteq> Some (Rejected e)) \<and>
   (\<forall>rs. getCoordinatesFromIPs ips events = Some (Fulfilled rs) \<longrightarrow>
      (\<forall>r \<in> set rs. coords r = JNull \<or>
         (\<exists>lon lat. coords r = JArr [lon, lat] \<and> truthy lon \<and> truthy lat))) \<and>
   (\<exists>flows. fst (run (createFlowsFromIPs pairs) w) = Fulfilled flows) \<and>
   createFlowsFromIPs_nullable (map Some pairs) = createFlowsFromIPs pairs"
proof -
  have failed: "fst (run (getCoordinatesFromIP a) w) = Fulfilled JNull"
    if "test ipRegex a" "\<not> usable1 (answer1 a w)" "\<not> usable2 (answer2 a w)"
      "\<not> usable2 (answer3 a w)"
    using unusable1 [OF that(2)] unusable2 [OF that(3)] unusable2 [OF that(4)]
    by (auto simp: run_valid_fst [OF that(1)] split: completion.splits)
  have entries: "coords r = JNull \<or>
      (\<exists>lon lat. coords r = JArr [lon, lat] \<and> truthy lon \<and> truthy lat)"
    if rs: "getCoordinatesFromIPs ips events = Some (Fulfilled rs)" and r: "r \<in> set rs" for rs r
  proof -
    from r obtain i where i: "i < length rs" and ri: "r = rs ! i"
      by (auto simp: in_set_conv_nth)
    with batch_fulfilled(1) [OF rs] have "i < length ips" by simp
    from batch_fulfilled(3) [OF rs this] show ?thesis
      unfolding ri by (rule feed_truthy)
  qed
  from run_carried [of a w] obtain v where
    v: "fst (run (getCoordinatesFromIP a) w) = Fulfilled v"
    and c: "v = JNull \<or> carried (answer1 a w) ''lon'' ''lat'' v \<or>
         carried (answer2 a w) ''longitude'' ''latitude'' v \<or>
         carried (answer3 a w) ''longitude'' ''latitude'' v"
    by blast
  from c have "v = JNull \<or> (\<exists>lon lat. v = JArr [lon, lat] \<and> truthy lon \<and> truthy lat)"
    using carried_truthy by blast
  with v c have lookup: "\<exists>v. fst (run (getCoordinatesFromIP a) w) = Fulfilled v \<and>
        (v = JNull \<or> carried (answer1 a w) ''lon'' ''lat'' v \<or>
         carried (answer2 a w) ''longitude'' ''latitude'' v \<or>
         carried (answer3 a w) ''longitude'' ''latitude'' v) \<and>
        (v = JNull \<or> (\<exists>lon lat. v = JArr [lon, lat] \<and> truthy lon \<and> truthy lat))"
    by blast
  have same: "createFlowsFromIPs_nullable (map Some pairs) = createFlowsFromIPs pairs"
    by (simp add: createFlowsFromIPs_nullable_def createFlowsFromIPs_def for_pairs_nullable_Some)
  have flows: "\<exists>flows. fst (run (createFlowsFromIPs pairs) w) = Fulfilled flows"
    by (simp add: createFlowsFromIPs_def run_for_pairs)
  have fed: "\<forall>xs e. result (feed (getCoordinatesFromIP a) xs) \<noteq> Some (Rejected e)"
    using feed_never_rejects [of a] by blast
  have malformed: "\<not> test ipRegex a \<longrightarrow> fst (run (getCoordinatesFromIP a) w) = Fulfilled JNull"
    by (simp add: run_invalid)
  have exhausted: "test ipRegex a \<and> \<not> usable1 (answer1 a w) \<and> \<not> usable2 (answer2 a w) \<and>
      \<not> usable2 (answer3 a w) \<longrightarrow> fst (run (getCoordinatesFromIP a) w) = Fulfilled JNull"
    using failed by blast
  have batch: "\<forall>e. getCoordinatesFromIPs ips events \<noteq> Some (Rejected e)"
    using batch_not_rejected [of ips events] by blast
  have batch_entries: "\<forall>rs. getCoordinatesFromIPs ips events = Some (Fulfilled rs) \<longrightarrow>
      (\<forall>r \<in> set rs. coords r = JNull \<or>
         (\<exists>lon lat. coords r = JArr [lon, lat] \<and> truthy lon \<and> truthy lat))"
    using entries by blast
  from lookup fed malformed exhausted batch batch_entries flows same
  show ?thesis by - (intro conjI; assumption)
qed

theorem no_function_rejects_witness:
  "fst (run (getCoordinatesFromIP ''bad'') (scripted [])) = Fulfilled JNull \<and>
   fst (run (getCoordinatesFromIP ''1.1.1.1'') (scripted [])) = Fulfilled JNull \<and>
   getCoordinatesFromIPs [''bad'', ''1.1.1.1'']
       [(1, Rejected FetchFailed), (1, Rejected FetchFailed), (1, Rejected FetchFailed)]
     = Some (Fulfilled [\<lparr>ip = ''bad'', coords = JNull\<rparr>, \<lparr>ip = ''1.1.1.1'', coords = JNull\<rparr>]) \<and>
   fst (run (createFlowsFromIPs example_pairs) (scripted [])) = Fulfilled [] \<and>
   fst (run (createFlowsFromIPs_nullable (map Some example_pairs)) (scripted [])) = Fulfilled []"
proof -
  let ?evs = "[(1, Rejected FetchFailed), (1, Rejected FetchFailed), (1::nat, Rejected FetchFailed)]"
  have v: "\<not> test ipRegex ''bad''" "test ipRegex ''1.1.1.1''" "test ipRegex ''8.8.8.8''"
    by code_simp+
  have a: "answer1 ''1.1.1.1'' (scripted []) = Rejected FetchFailed"
    "answer2 ''1.1.1.1'' (scripted []) = Rejected FetchFailed"
    "answer3 ''1.1.1.1'' (scripted []) = Rejected FetchFailed"
    by (simp_all add: answer1_eq answer2_eq answer3_eq scripted_def)
  have u: "\<not> usable1 (Rejected FetchFailed)" "\<not> usable2 (Rejected FetchFailed)"
    by (simp_all add: usable1_def usable2_def)
  from no_function_rejects [of "''bad''" "scripted []"] v(1)
  have 1: "fst (run (getCoordinatesFromIP ''bad'') (scripted [])) = Fulfilled JNull"
    by blast
  from no_function_rejects [of "''1.1.1.1''" "scripted []"] v(2) a u
  have 2: "fst (run (getCoordinatesFromIP ''1.1.1.1'') (scripted [])) = Fulfilled JNull"
    by simp
  have 3: "getCoordinatesFromIPs [''bad'', ''1.1.1.1''] ?evs
     = Some (Fulfilled [\<lparr>ip = ''bad'', coords = JNull\<rparr>, \<lparr>ip = ''1.1.1.1'', coords = JNull\<rparr>])"
    by (simp add: getCoordinatesFromIPs_def on_event_def lookup_task_def await_def
        getCoordinatesFromIP_def v try_catch_def attempt1_def attempt2_def attempt3_def
        body1_def body2_def)
  have 4: "fst (run (createFlowsFromIPs example_pairs) (scripted [])) = Fulfilled []"
    by (simp add: createFlowsFromIPs_def example_pairs_def run_await
        getCoordinatesFromIP_def v run_bind run_try1 run_try2 run_try3
        scripted_def body1_def body2_def)
  from no_function_rejects [of _ "scripted []" _ _ example_pairs] 4
  have 5: "fst (run (createFlowsFromIPs_nullable (map Some example_pairs)) (scripted []))
      = Fulfilled []"
    by simp
  from 1 2 3 4 5 show ?thesis by simp
qed

text \<open>
  The claim as it is written fails twice. An array holding \<open>null\<close> is an input, and on it
  \<open>createFlowsFromIPs\<close> rejects with the TypeError of \<open>pair.srcIP\<close>. And what a lookup
  returns need not be a pair of numbers: when provider 2 sends its coordinates as
  strings, the lookup returns the two strings.
\<close>

theorem no_function_rejects_counterexample:
  "fst (run (createFlowsFromIPs_nullable [None]) (scripted [])) = Rejected TypeError \<and>
   fst (run (getCoordinatesFromIP ''8.8.8.8'')
       (scripted [Rejected FetchFailed, Fulfilled strings2]))
     = Fulfilled (JArr [JStr ''12.5'', JStr ''3'']) \<and>
   \<not> coordinate_pair (JArr [JStr ''12.5'', JStr ''3''])"
proof -
  have v: "test ipRegex ''8.8.8.8''" by code_simp
  have "fst (run (createFlowsFromIPs_nullable [None]) (scripted [])) = Rejected TypeError"
    by (simp add: createFlowsFromIPs_nullable_def)
  moreover have "fst (run (getCoordinatesFromIP ''8.8.8.8'')
       (scripted [Rejected FetchFailed, Fulfilled strings2]))
     = Fulfilled (JArr [JStr ''12.5'', JStr ''3''])"
    by (simp add: run_valid_fst [OF v] answer1_eq answer2_eq scripted_def strings2_def
        body1_def body2_def check2_def)
  ultimately show ?thesis by simp
qed

text \<open>
  C9: a string of four groups of one to three decimal digits with dots between them
  passes the format check whatever the values of the groups, so the lookup does not
  return from the check: the first thing it does is to ask provider 1.
\<close>

theorem digit_groups_pass_validation:
  assumes "digit_group g1" and "digit_group g2" and "digit_group g3" and "digit_group g4"
  shows "test ipRegex (g1 @ ''.'' @ g2 @ ''.'' @ g3 @ ''.'' @ g4) \<and>
         result (getCoordinatesFromIP (g1 @ ''.'' @ g2 @ ''.'' @ g3 @ ''.'' @ g4)) = None \<and>
         (\<exists>rest. requests (snd (run (getCoordinatesFromIP
                     (g1 @ ''.'' @ g2 @ ''.'' @ g3 @ ''.'' @ g4)) w))
                   = requests w @ url1 (g1 @ ''.'' @ g2 @ ''.'' @ g3 @ ''.'' @ g4) # rest)"
proof -
  let ?s = "g1 @ ''.'' @ g2 @ ''.'' @ g3 @ ''.'' @ g4"
  have v: "test ipRegex ?s" using assms by (rule test_dotted_quad)
  moreover have "result (getCoordinatesFromIP ?s) = None"
    using v by (rule no_early_return)
  moreover have "\<exists>rest. requests (snd (run (getCoordinatesFromIP ?s) w))
      = requests w @ url1 ?s # rest"
    using v by (rule first_request)
  ultimately show ?thesis by blast
qed

theorem digit_groups_pass_validation_witness:
  "digit_group ''999'' \<and> test ipRegex ''999.999.999.999'' \<and>
   result (getCoordinatesFromIP ''999.999.999.999'') = None \<and>
   (\<exists>rest. requests (snd (run (getCoordinatesFromIP ''999.999.999.999'') (scripted [])))
      = ''http://ip-api.com/json/999.999.999.999?fields=status,message,lon,lat'' # rest)"
proof -
  have g: "digit_group ''999''"
    by (simp add: digit_group_def is_digit_def)
  from digit_groups_pass_validation [OF g g g g, of "scripted []"] g
  show ?thesis by (simp add: url1_def scripted_def)
qed

text \<open>
  C10: the loop runs the lookup twice for every pair, for the source and then for the
  destination, whatever the first lookup returned. The world that a run of the loop
  leaves, with its requests, its console output and its invocations, is the world that
  the lookups of the two addresses of each pair leave when run one after the other in
  that order; so the invocations are these addresses, two for each pair.
\<close>

theorem two_lookups_per_pair:
  "snd (run (createFlowsFromIPs pairs) w)
     = foldl (\<lambda>w' a. snd (run (getCoordinatesFromIP a) w')) w
         (concat (map (\<lambda>pair. [srcIP pair, dstIP pair]) pairs)) \<and>
   invocations (snd (run (createFlowsFromIPs pairs) w))
     = invocations w @ concat (map (\<lambda>pair. [srcIP pair, dstIP pair]) pairs) \<and>
   length (invocations (snd (run (createFlowsFromIPs pairs) w)))
     = length (invocations w) + 2 * length pairs"
proof -
  have "snd (run (createFlowsFromIPs pairs) w)
     = foldl (\<lambda>w' a. snd (run (getCoordinatesFromIP a) w')) w
         (concat (map (\<lambda>pair. [srcIP pair, dstIP pair]) pairs))"
    unfolding createFlowsFromIPs_def by (rule world_for_pairs)
  moreover have "invocations (snd (run (createFlowsFromIPs pairs) w))
     = invocations w @ concat (map (\<lambda>pair. [srcIP pair, dstIP pair]) pairs)"
    unfolding createFlowsFromIPs_def by (rule invocations_for_pairs)
  ultimately show ?thesis by (simp add: length_endpoints)
qed

theorem two_lookups_per_pair_witness:
  "fst (run (getCoordinatesFromIP ''bad'') (scripted [Fulfilled ok1])) = Fulfilled JNull \<and>
   requests (snd (run (createFlowsFromIPs [\<lparr>srcIP = ''bad'', dstIP = ''8.8.8.8''\<rparr>])
       (scripted [Fulfilled ok1])))
     = [''http://ip-api.com/json/8.8.8.8?fields=status,message,lon,lat''] \<and>
   console (snd (run (createFlowsFromIPs [\<lparr>srcIP = ''bad'', dstIP = ''8.8.8.8''\<rparr>])
       (scripted [Fulfilled ok1])))
     = [Error, Log] \<and>
   invocations (snd (run (createFlowsFromIPs [\<lparr>srcIP = ''bad'', dstIP = ''8.8.8.8''\<rparr>])
       (scripted [Fulfilled ok1])))
     = [''bad'', ''8.8.8.8'']"
proof -
  let ?w = "scripted [Fulfilled ok1]"
  have v: "\<not> test ipRegex ''bad''" "test ipRegex ''8.8.8.8''" by code_simp+
  have b: "run (getCoordinatesFromIP ''bad'') ?w
      = (Fulfilled JNull, ?w\<lparr>console := [Error], invocations := [''bad'']\<rparr>)"
    by (simp add: run_invalid [OF v(1)] scripted_def)
  have d: "snd (run (getCoordinatesFromIP ''8.8.8.8'')
        (?w\<lparr>console := [Error], invocations := [''bad'']\<rparr>))
      = ?w\<lparr>requests := [url1 ''8.8.8.8''], console := [Error, Log],
             invocations := [''bad'', ''8.8.8.8'']\<rparr>"
    by (simp add: getCoordinatesFromIP_def v run_bind run_try1 scripted_def ok1_def
        body1_def check1_def)
  from two_lookups_per_pair [of "[\<lparr>srcIP = ''bad'', dstIP = ''8.8.8.8''\<rparr>]" ?w]
  have "snd (run (createFlowsFromIPs [\<lparr>srcIP = ''bad'', dstIP = ''8.8.8.8''\<rparr>]) ?w)
      = ?w\<lparr>requests := [url1 ''8.8.8.8''], console := [Error, Log],
             invocations := [''bad'', ''8.8.8.8'']\<rparr>"
    by (simp add: b d)
  with b show ?thesis by (simp add: url1_def)
qed

end
